theory Spec2Isabelle
  imports Main "HOL-Library.Sublist"
begin

section \<open>Strings\<close>

text \<open>
  A JavaScript string is modelled as a \<^typ>\<open>string\<close>: a list of code units, each below 256.
  The character classes are those of the regular expressions in the sources:
  \<^verbatim>\<open>\w\<close> is \<^verbatim>\<open>[A-Za-z0-9_]\<close>, \<^verbatim>\<open>\s\<close> is the white space and line terminators of
  ECMAScript (tab, LF, VT, FF, CR, space and NBSP among the first 256 code units), and
  \<^verbatim>\<open>.\<close> is every code unit but a line terminator (LF and CR below 256).
  Case mapping is that of the ASCII letters, which is all the tag patterns capture; for a
  text with other letters \<^verbatim>\<open>toUpperCase\<close> and \<^verbatim>\<open>toLowerCase\<close> do more than the model.
\<close>

definition upperChars :: string where
  "upperChars = ''ABCDEFGHIJKLMNOPQRSTUVWXYZ''"

definition lowerChars :: string where
  "lowerChars = ''abcdefghijklmnopqrstuvwxyz''"

definition digitChars :: string where
  "digitChars = ''0123456789''"

definition isWordChar :: "char \<Rightarrow> bool" where
  "isWordChar c = (c \<in> set (upperChars @ lowerChars @ digitChars @ ''_''))"

definition isTagChar :: "char \<Rightarrow> bool" where
  "isTagChar c = (c \<in> set (upperChars @ digitChars @ ''_-''))"

definition isSpace :: "char \<Rightarrow> bool" where
  "isSpace c = (c \<in> set [CHR 0x09, CHR 0x0A, CHR 0x0B, CHR 0x0C, CHR 0x0D, CHR 0x20, CHR 0xA0])"

definition isLineTerminator :: "char \<Rightarrow> bool" where
  "isLineTerminator c = (c \<in> set [CHR 0x0A, CHR 0x0D])"

definition toLowerChar :: "char \<Rightarrow> char" where
  "toLowerChar c = (case map_of (zip upperChars lowerChars) c of Some l \<Rightarrow> l | None \<Rightarrow> c)"

definition toUpperChar :: "char \<Rightarrow> char" where
  "toUpperChar c = (case map_of (zip lowerChars upperChars) c of Some u \<Rightarrow> u | None \<Rightarrow> c)"

definition toLowerCase :: "string \<Rightarrow> string" where
  "toLowerCase s = map toLowerChar s"

definition toUpperCase :: "string \<Rightarrow> string" where
  "toUpperCase s = map toUpperChar s"

fun startsWith :: "string \<Rightarrow> string \<Rightarrow> bool" where
  "startsWith s [] = True"
| "startsWith [] (p # ps) = False"
| "startsWith (c # cs) (p # ps) = (c = p \<and> startsWith cs ps)"

fun strIncludes :: "string \<Rightarrow> string \<Rightarrow> bool" where
  "strIncludes [] p = (p = [])"
| "strIncludes (c # cs) p = (startsWith (c # cs) p \<or> strIncludes cs p)"

fun endsWith :: "string \<Rightarrow> string \<Rightarrow> bool" where
  "endsWith s p = startsWith (rev s) (rev p)"

definition trim :: "string \<Rightarrow> string" where
  "trim s = rev (dropWhile isSpace (rev (dropWhile isSpace s)))"

text \<open>\<^verbatim>\<open>join\<close> of an array of strings.\<close>

fun join :: "string \<Rightarrow> string list \<Rightarrow> string" where
  "join sep [] = []"
| "join sep [x] = x"
| "join sep (x # y # ys) = x @ sep @ join sep (y # ys)"

section \<open>Tag engine (src/utils/tags.js, TAG\_PATTERNS of src/constants/mappings.js)\<close>

text \<open>
  The three global patterns \<^verbatim>\<open>/\[([A-Z0-9_-]+)\]/g\<close>, \<^verbatim>\<open>/@(\w+)/g\<close> and \<^verbatim>\<open>/#(\w+)/g\<close>.
  \<open>matchAt p s\<close> is the match of the pattern anchored at the head of \<open>s\<close>: the capture
  group and the text after the match. Each pattern has one candidate match per start:
  the class run is greedy, and a shorter run is followed by a character of the class,
  which is not the closing bracket.
\<close>

datatype tagPattern = Bracketed | AtPrefixed | HashPrefixed

definition TAG_PATTERNS :: "tagPattern list" where
  "TAG_PATTERNS = [Bracketed, AtPrefixed, HashPrefixed]"

definition bracketAt :: "string \<Rightarrow> (string \<times> string) option" where
  "bracketAt s =
     (case s of
        [] \<Rightarrow> None
      | c # cs \<Rightarrow>
          if c = CHR ''[''
          then (case dropWhile isTagChar cs of
                  [] \<Rightarrow> None
                | r # rs \<Rightarrow>
                    if takeWhile isTagChar cs \<noteq> [] \<and> r = CHR '']''
                    then Some (takeWhile isTagChar cs, rs) else None)
          else None)"

definition prefixedAt :: "char \<Rightarrow> string \<Rightarrow> (string \<times> string) option" where
  "prefixedAt p s =
     (case s of
        [] \<Rightarrow> None
      | c # cs \<Rightarrow>
          if c = p \<and> takeWhile isWordChar cs \<noteq> []
          then Some (takeWhile isWordChar cs, dropWhile isWordChar cs) else None)"

fun matchAt :: "tagPattern \<Rightarrow> string \<Rightarrow> (string \<times> string) option" where
  "matchAt Bracketed s = bracketAt s"
| "matchAt AtPrefixed s = prefixedAt (CHR ''@'') s"
| "matchAt HashPrefixed s = prefixedAt (CHR ''#'') s"

lemma matchAt_shorter: "matchAt p s = Some (cap, rest) \<Longrightarrow> length rest < length s"
proof (cases s)
  case Nil
  assume "matchAt p s = Some (cap, rest)"
  with Nil show ?thesis by (cases p) (simp_all add: bracketAt_def prefixedAt_def)
next
  case (Cons c cs)
  assume m: "matchAt p s = Some (cap, rest)"
  have d: "length (dropWhile P cs) \<le> length cs" for P :: "char \<Rightarrow> bool"
    by (rule length_dropWhile_le)
  show ?thesis
  proof (cases p)
    case Bracketed
    with m Cons obtain r where "dropWhile isTagChar cs = r # rest"
      by (auto simp: bracketAt_def split: if_splits list.splits)
    with d [of isTagChar] Cons show ?thesis by simp
  next
    case AtPrefixed
    with m Cons have "rest = dropWhile isWordChar cs"
      by (auto simp: prefixedAt_def split: if_splits)
    with d [of isWordChar] Cons show ?thesis by simp
  next
    case HashPrefixed
    with m Cons have "rest = dropWhile isWordChar cs"
      by (auto simp: prefixedAt_def split: if_splits)
    with d [of isWordChar] Cons show ?thesis by simp
  qed
qed

text \<open>
  The loop \<^verbatim>\<open>while ((match = pattern.exec(str)) !== null)\<close> of a global pattern started
  at \<^verbatim>\<open>lastIndex = 0\<close>: the captures of the successive matches, each search resuming
  where the last match ended.
\<close>

function execAll :: "tagPattern \<Rightarrow> string \<Rightarrow> string list" where
  "execAll p s =
     (case matchAt p s of
        Some (cap, rest) \<Rightarrow> cap # execAll p rest
      | None \<Rightarrow> (case s of [] \<Rightarrow> [] | c # cs \<Rightarrow> execAll p cs))"
  by pat_completeness auto
termination
  by (relation "measure (\<lambda>(p, s). length s)") (auto dest: matchAt_shorter)

text \<open>\<^verbatim>\<open>str.replace(new RegExp(pattern.source, 'g'), '')\<close>.\<close>

function replaceAll :: "tagPattern \<Rightarrow> string \<Rightarrow> string" where
  "replaceAll p s =
     (case matchAt p s of
        Some (cap, rest) \<Rightarrow> replaceAll p rest
      | None \<Rightarrow> (case s of [] \<Rightarrow> [] | c # cs \<Rightarrow> c # replaceAll p cs))"
  by pat_completeness auto
termination
  by (relation "measure (\<lambda>(p, s). length s)") (auto dest: matchAt_shorter)

text \<open>\<^verbatim>\<open>tags.add(t)\<close> on a Set, kept as the list of its elements in insertion order.\<close>

definition setAdd :: "string list \<Rightarrow> string \<Rightarrow> string list" where
  "setAdd tags t = (if t \<in> set tags then tags else tags @ [t])"

definition extractTagsFromString :: "string \<Rightarrow> string list" where
  "extractTagsFromString str =
     foldl (\<lambda>tags pattern. foldl (\<lambda>tags m. setAdd tags (toLowerCase m)) tags (execAll pattern str))
       [] TAG_PATTERNS"

text \<open>\<^verbatim>\<open>replace(/\s+/g, ' ')\<close>.\<close>

function collapseSpaces :: "string \<Rightarrow> string" where
  "collapseSpaces [] = []"
| "collapseSpaces (c # cs) =
     (if isSpace c then CHR '' '' # collapseSpaces (dropWhile isSpace cs)
      else c # collapseSpaces cs)"
  by pat_completeness auto
termination
  by (relation "measure length") (auto simp: length_dropWhile_le less_Suc_eq_le)

definition removeTagsFromString :: "string \<Rightarrow> string" where
  "removeTagsFromString str =
     collapseSpaces (trim (foldl (\<lambda>result pattern. replaceAll pattern result) str TAG_PATTERNS))"

text \<open>
  The elements of a list in the order of their first occurrences: what the insertion
  order of a Set retains of a sequence of \<^verbatim>\<open>add\<close> calls.
\<close>

fun keepFirst :: "string list \<Rightarrow> string list" where
  "keepFirst [] = []"
| "keepFirst (x # xs) = x # filter (\<lambda>y. y \<noteq> x) (keepFirst xs)"


declare execAll.simps [simp del]
declare replaceAll.simps [simp del]

text \<open>
  Predicates used to state what \<open>removeTagsFromString\<close> leaves behind: the text starts
  with a word character; the text contains the prefix character \<open>p\<close> directly followed
  by a word character (a match of \<^verbatim>\<open>/@\w/\<close> for \<open>p = @\<close>); every opening square bracket
  of the text starts a match of the bracketed pattern.
\<close>

fun startsWord :: "string \<Rightarrow> bool" where
  "startsWord [] = False"
| "startsWord (c # cs) = isWordChar c"

fun hasPair :: "char \<Rightarrow> string \<Rightarrow> bool" where
  "hasPair p [] = False"
| "hasPair p (c # cs) = ((c = p \<and> startsWord cs) \<or> hasPair p cs)"

fun bracketsAreTags :: "string \<Rightarrow> bool" where
  "bracketsAreTags [] = True"
| "bracketsAreTags (c # cs) =
     ((if c = CHR ''['' then bracketAt (c # cs) \<noteq> None else True) \<and> bracketsAreTags cs)"

fun leadChar :: "tagPattern \<Rightarrow> char" where
  "leadChar Bracketed = CHR ''[''"
| "leadChar AtPrefixed = CHR ''@''"
| "leadChar HashPrefixed = CHR ''#''"

fun prefixedPattern :: "tagPattern \<Rightarrow> bool" where
  "prefixedPattern Bracketed = False"
| "prefixedPattern AtPrefixed = True"
| "prefixedPattern HashPrefixed = True"


section \<open>Selector classifier (src/transformers/selectors.js, SELECTOR\_PATTERNS)\<close>

fun stripPrefix :: "string \<Rightarrow> string \<Rightarrow> string option" where
  "stripPrefix [] s = Some s"
| "stripPrefix (p # ps) [] = None"
| "stripPrefix (p # ps) (c # cs) = (if p = c then stripPrefix ps cs else None)"

definition isQuote :: "char \<Rightarrow> bool" where
  "isQuote c = (c = CHR 0x27 \<or> c = CHR 0x22)"

text \<open>
  The attribute patterns \<^verbatim>\<open>/\[NAME=['"]([^'"]+)['"]\]/\<close>, anchored at the head of the text:
  the capture group of the match. The run \<^verbatim>\<open>[^'"]+\<close> is greedy and what follows it must be
  a quote, so the run is the maximal one.
\<close>

definition attrAt :: "string \<Rightarrow> string \<Rightarrow> string option" where
  "attrAt name s =
     (case stripPrefix (''['' @ name @ ''='') s of
        None \<Rightarrow> None
      | Some r \<Rightarrow>
          (case r of
             [] \<Rightarrow> None
           | q # r1 \<Rightarrow>
               if isQuote q
               then (case dropWhile (\<lambda>c. \<not> isQuote c) r1 of
                       q2 # b # r2 \<Rightarrow>
                         if takeWhile (\<lambda>c. \<not> isQuote c) r1 \<noteq> [] \<and> b = CHR '']''
                         then Some (takeWhile (\<lambda>c. \<not> isQuote c) r1) else None
                     | _ \<Rightarrow> None)
               else None))"

text \<open>
  \<^verbatim>\<open>selector.match(pattern)\<close> for a pattern with no \<^verbatim>\<open>g\<close> flag and no anchor: the match at
  the leftmost start that has one.
\<close>

fun searchFirst :: "(string \<Rightarrow> 'a option) \<Rightarrow> string \<Rightarrow> 'a option" where
  "searchFirst m [] = m []"
| "searchFirst m (c # cs) = (case m (c # cs) of Some v \<Rightarrow> Some v | None \<Rightarrow> searchFirst m cs)"

definition matchDataTestId :: "string \<Rightarrow> string option" where
  "matchDataTestId s = searchFirst (attrAt ''data-test-id'') s"

definition matchAriaLabel :: "string \<Rightarrow> string option" where
  "matchAriaLabel s = searchFirst (attrAt ''aria-label'') s"

definition matchRole :: "string \<Rightarrow> string option" where
  "matchRole s = searchFirst (attrAt ''role'') s"

definition matchPlaceholder :: "string \<Rightarrow> string option" where
  "matchPlaceholder s = searchFirst (attrAt ''placeholder'') s"

text \<open>
  \<^verbatim>\<open>/^(button|a)\[.*\]$/\<close>: after the tag name an opening bracket, then any characters but
  line terminators, then a closing bracket that ends the text. \<^verbatim>\<open>/^(button|a)$/\<close>: the
  text is the tag name.
\<close>

definition bracketBody :: "string \<Rightarrow> bool" where
  "bracketBody r =
     (case r of
        [] \<Rightarrow> False
      | b # rest \<Rightarrow>
          b = CHR ''['' \<and> rest \<noteq> [] \<and> last rest = CHR '']''
          \<and> \<not> list_ex isLineTerminator (butlast rest))"

definition matchTagWithAttrs :: "string \<Rightarrow> bool" where
  "matchTagWithAttrs s =
     ((case stripPrefix ''button'' s of Some r \<Rightarrow> bracketBody r | None \<Rightarrow> False)
      \<or> (case stripPrefix ''a'' s of Some r \<Rightarrow> bracketBody r | None \<Rightarrow> False))"

definition matchBareTag :: "string \<Rightarrow> bool" where
  "matchBareTag s = (s = ''button'' \<or> s = ''a'')"

record selectorTransform =
  code :: string
  type :: string
  original :: string
  note' :: "string option"
  suggestion :: "string option"

definition transformSelector :: "string \<Rightarrow> selectorTransform" where
  "transformSelector selector =
     (case matchDataTestId selector of
        Some testIdMatch \<Rightarrow>
          \<lparr>code = ''page.getByTestId('' @ [CHR 0x27] @ testIdMatch @ [CHR 0x27] @ '')'',
           type = ''testId'', original = selector, note' = None, suggestion = None\<rparr>
      | None \<Rightarrow>
     (case matchAriaLabel selector of
        Some ariaMatch \<Rightarrow>
          \<lparr>code = ''page.getByLabel('' @ [CHR 0x27] @ ariaMatch @ [CHR 0x27] @ '')'',
           type = ''label'', original = selector, note' = None, suggestion = None\<rparr>
      | None \<Rightarrow>
     (case matchRole selector of
        Some roleMatch \<Rightarrow>
          \<lparr>code = ''page.getByRole('' @ [CHR 0x27] @ roleMatch @ [CHR 0x27] @ '')'',
           type = ''role'', original = selector, note' = None, suggestion = None\<rparr>
      | None \<Rightarrow>
     (case matchPlaceholder selector of
        Some placeholderMatch \<Rightarrow>
          \<lparr>code = ''page.getByPlaceholder('' @ [CHR 0x27] @ placeholderMatch @ [CHR 0x27] @ '')'',
           type = ''placeholder'', original = selector, note' = None, suggestion = None\<rparr>
      | None \<Rightarrow>
     (if matchTagWithAttrs selector \<or> matchBareTag selector
      then \<lparr>code = ''page.getByRole('' @ [CHR 0x27]
                    @ (if startsWith selector ''button'' then ''button'' else ''link'')
                    @ [CHR 0x27] @ '')'',
            type = ''role'', original = selector,
            note' = Some ''Consider adding { name: \"...\" } for specificity'', suggestion = None\<rparr>
      else \<lparr>code = ''page.locator('' @ [CHR 0x27] @ selector @ [CHR 0x27] @ '')'',
            type = ''css'', original = selector, note' = None,
            suggestion = Some ''Consider using data-test-id for more reliable selectors''\<rparr>)))))"

section \<open>JSON values and the command mapping table (COMMAND\_MAPPINGS, handleRegisterCustomCommands)\<close>

text \<open>
  The values \<^verbatim>\<open>JSON.parse\<close> yields. An object is the list of its own properties in
  enumeration order. Of a number only whether it is zero is observed by the code
  modelled here; numbers are integers.
\<close>

datatype json =
    JNull
  | JBool bool
  | JNum int
  | JStr string
  | JArr "json list"
  | JObj "(string \<times> json) list"

text \<open>A JavaScript value that is a JSON value or \<^verbatim>\<open>undefined\<close> (\<open>None\<close>).\<close>

type_synonym jsvalue = "json option"

fun truthy :: "json \<Rightarrow> bool" where
  "truthy JNull = False"
| "truthy (JBool b) = b"
| "truthy (JNum n) = (n \<noteq> 0)"
| "truthy (JStr s) = (s \<noteq> [])"
| "truthy (JArr xs) = True"
| "truthy (JObj fs) = True"

datatype failure =
    ParseFailure string
  | ReparseFailure
  | TypeError
  | NotModelled

function showNat :: "nat \<Rightarrow> string" where
  "showNat n = (if n < 10 then [digitChars ! n] else showNat (n div 10) @ [digitChars ! (n mod 10)])"
  by pat_completeness auto
termination
  by (relation "measure id") auto

declare showNat.simps [simp del]

definition showInt :: "int \<Rightarrow> string" where
  "showInt i = (if i < 0 then ''-'' @ showNat (nat (- i)) else showNat (nat i))"

text \<open>
  \<^verbatim>\<open>String(v)\<close>, as a template literal and a property key apply it: an array joins its
  elements with commas, \<^verbatim>\<open>null\<close> and \<^verbatim>\<open>undefined\<close> elements as empty strings.
\<close>

fun jsonToString :: "json \<Rightarrow> string" where
  "jsonToString JNull = ''null''"
| "jsonToString (JBool b) = (if b then ''true'' else ''false'')"
| "jsonToString (JNum n) = showInt n"
| "jsonToString (JStr s) = s"
| "jsonToString (JArr xs) =
     join '','' (map (\<lambda>x. if x = JNull then [] else jsonToString x) xs)"
| "jsonToString (JObj fs) = ''[object Object]''"

definition toStr :: "jsvalue \<Rightarrow> string" where
  "toStr v = (case v of None \<Rightarrow> ''undefined'' | Some j \<Rightarrow> jsonToString j)"

definition truthyValue :: "jsvalue \<Rightarrow> bool" where
  "truthyValue v = (case v of None \<Rightarrow> False | Some j \<Rightarrow> truthy j)"

text \<open>
  An object literal as a table: its own properties, and behind them the properties every
  object inherits from \<^verbatim>\<open>Object.prototype\<close>, which a lookup \<^verbatim>\<open>table[key]\<close> finds too.
  All of the inherited ones are functions or objects: truthy, and with no property
  \<^verbatim>\<open>method\<close>.
\<close>

type_synonym table = "(string \<times> json) list"

definition objectPrototypeKeys :: "string list" where
  "objectPrototypeKeys =
     [''constructor'', ''hasOwnProperty'', ''isPrototypeOf'', ''propertyIsEnumerable'',
      ''toLocaleString'', ''toString'', ''valueOf'', ''__proto__'',
      ''__defineGetter__'', ''__defineSetter__'', ''__lookupGetter__'', ''__lookupSetter__'']"

datatype property = Own json | Inherited | Missing

definition getProp :: "table \<Rightarrow> string \<Rightarrow> property" where
  "getProp tbl k =
     (case map_of tbl k of
        Some v \<Rightarrow> Own v
      | None \<Rightarrow> if k \<in> set objectPrototypeKeys then Inherited else Missing)"

fun truthyProp :: "property \<Rightarrow> bool" where
  "truthyProp (Own v) = truthy v"
| "truthyProp Inherited = True"
| "truthyProp Missing = False"

text \<open>
  \<^verbatim>\<open>table[key] = v\<close>: an own property keeps its place, a new one is added last. (An
  object enumerates its array-index keys first; the list is in enumeration order for
  the other keys. The model reads the table by key and counts its keys, never by
  position.)
\<close>

fun setProp :: "table \<Rightarrow> string \<Rightarrow> json \<Rightarrow> table" where
  "setProp [] k v = [(k, v)]"
| "setProp ((k', v') # rest) k v = (if k' = k then (k, v) # rest else (k', v') # setProp rest k v)"

text \<open>\<^verbatim>\<open>v.method\<close> of a truthy value: only an object can have the property.\<close>

fun methodOf :: "json \<Rightarrow> jsvalue" where
  "methodOf (JObj fs) = map_of fs ''method''"
| "methodOf v = None"

text \<open>
  \<^verbatim>\<open>table[key].method\<close>: reading a property of \<^verbatim>\<open>null\<close> or \<^verbatim>\<open>undefined\<close> raises a
  TypeError.
\<close>

fun methodOfProp :: "property \<Rightarrow> failure + jsvalue" where
  "methodOfProp (Own JNull) = Inl TypeError"
| "methodOfProp (Own v) = Inr (methodOf v)"
| "methodOfProp Inherited = Inr None"
| "methodOfProp Missing = Inl TypeError"

definition mappingEntry :: "string \<Rightarrow> string \<Rightarrow> json" where
  "mappingEntry m d = JObj [(''method'', JStr m), (''description'', JStr d)]"

definition mappingEntryWithOptions :: "string \<Rightarrow> string \<Rightarrow> string \<Rightarrow> json" where
  "mappingEntryWithOptions m opts d =
     JObj [(''method'', JStr m), (''options'', JStr opts), (''description'', JStr d)]"

definition COMMAND_MAPPINGS :: table where
  "COMMAND_MAPPINGS =
     [
      (''setValue'', mappingEntry ''fill'' ''Clears and fills input''),
      (''addValue'', mappingEntry ''pressSequentially'' ''Types without clearing''),
      (''clearValue'', mappingEntry ''clear'' ''Clears input field''),
      (''getValue'', mappingEntry ''inputValue'' ''Gets input value''),
      (''getText'', mappingEntry ''textContent'' ''Gets element text''),
      (''getHTML'', mappingEntry ''innerHTML'' ''Gets inner HTML''),
      (''getAttribute'', mappingEntry ''getAttribute'' ''Gets attribute value''),
      (''click'', mappingEntry ''click'' ''Clicks element''),
      (''doubleClick'', mappingEntry ''dblclick'' ''Double clicks element''),
      (''moveTo'', mappingEntry ''hover'' ''Hovers over element''),
      (''scrollIntoView'', mappingEntry ''scrollIntoViewIfNeeded'' ''Scrolls element into view''),
      (''isDisplayed'', mappingEntry ''isVisible'' ''Checks visibility''),
      (''isEnabled'', mappingEntry ''isEnabled'' ''Checks if enabled''),
      (''isSelected'', mappingEntry ''isChecked'' ''Checks if selected/checked''),
      (''isExisting'', mappingEntry ''count'' ''Checks existence (count > 0)''),
      (''waitForDisplayed'', mappingEntryWithOptions ''waitFor'' ''{ state: \"visible\" }'' ''Waits for visibility''),
      (''waitForClickable'', mappingEntryWithOptions ''waitFor'' ''{ state: \"visible\" }'' ''Waits for clickable state''),
      (''waitForExist'', mappingEntryWithOptions ''waitFor'' ''{ state: \"attached\" }'' ''Waits for existence''),
      (''waitForEnabled'', mappingEntryWithOptions ''waitFor'' ''{ state: \"visible\" }'' ''Waits for enabled state''),
      (''selectByVisibleText'', mappingEntry ''selectOption'' ''Selects dropdown option by text''),
      (''selectByIndex'', mappingEntry ''selectOption'' ''Selects dropdown option by index''),
      (''selectByAttribute'', mappingEntry ''selectOption'' ''Selects dropdown option by attribute''),
      (''browser.url'', mappingEntry ''page.goto'' ''Navigates to URL''),
      (''browser.getUrl'', mappingEntry ''page.url'' ''Gets current URL''),
      (''browser.getTitle'', mappingEntry ''page.title'' ''Gets page title''),
      (''browser.pause'', mappingEntry ''page.waitForTimeout'' ''Pauses execution''),
      (''browser.debug'', mappingEntry ''page.pause'' ''Opens Playwright inspector''),
      (''browser.execute'', mappingEntry ''page.evaluate'' ''Executes JavaScript''),
      (''browser.executeAsync'', mappingEntry ''page.evaluate'' ''Executes async JavaScript''),
      (''browser.keys'', mappingEntry ''page.keyboard.press'' ''Presses keyboard keys''),
      (''browser.refresh'', mappingEntry ''page.reload'' ''Reloads page''),
      (''browser.back'', mappingEntry ''page.goBack'' ''Navigates back''),
      (''browser.forward'', mappingEntry ''page.goForward'' ''Navigates forward''),
      (''browser.deleteCookies'', mappingEntry ''context.clearCookies'' ''Clears cookies''),
      (''browser.getCookies'', mappingEntry ''context.cookies'' ''Gets cookies''),
      (''browser.setCookies'', mappingEntry ''context.addCookies'' ''Sets cookies''),
      (''browser.newWindow'', mappingEntry ''context.newPage'' ''Opens new window/tab''),
      (''browser.switchWindow'', mappingEntry ''page.bringToFront'' ''Switches to window''),
      (''browser.closeWindow'', mappingEntry ''page.close'' ''Closes window''),
      (''browser.getWindowHandles'', mappingEntry ''context.pages'' ''Gets all page handles''),
      (''browser.getWindowHandle'', mappingEntry ''page'' ''Gets current page handle''),
      (''browser.switchToFrame'', mappingEntry ''page.frameLocator'' ''Switches to frame''),
      (''browser.switchToParentFrame'', mappingEntry ''page.mainFrame'' ''Switches to parent frame''),
      (''browser.acceptAlert'', mappingEntry ''page.on(\"dialog\")'' ''Accepts dialog''),
      (''browser.dismissAlert'', mappingEntry ''page.on(\"dialog\")'' ''Dismisses dialog''),
      (''browser.getAlertText'', mappingEntry ''dialog.message'' ''Gets dialog text''),
      (''browser.sendAlertText'', mappingEntry ''dialog.accept'' ''Sends text to dialog''),
      (''browser.takeScreenshot'', mappingEntry ''page.screenshot'' ''Takes screenshot''),
      (''browser.saveScreenshot'', mappingEntryWithOptions ''page.screenshot'' ''{ path: \"...\" }'' ''Saves screenshot''),
      (''browser.uploadFile'', mappingEntry ''locator.setInputFiles'' ''Uploads file'')
     ]"

text \<open>
  \<^verbatim>\<open>Object.entries(customCommands)\<close> of a parsed JSON value: the own properties of an
  object, the indexed elements of an array or a string, nothing for a number or a
  boolean, and a TypeError for \<^verbatim>\<open>null\<close>.
\<close>

fun indexed :: "nat \<Rightarrow> json list \<Rightarrow> (string \<times> json) list" where
  "indexed i [] = []"
| "indexed i (x # xs) = (showNat i, x) # indexed (Suc i) xs"

fun objectEntries :: "json \<Rightarrow> failure + (string \<times> json) list" where
  "objectEntries JNull = Inl TypeError"
| "objectEntries (JBool b) = Inr []"
| "objectEntries (JNum n) = Inr []"
| "objectEntries (JStr s) = Inr (indexed 0 (map (\<lambda>c. JStr [c]) s))"
| "objectEntries (JArr xs) = Inr (indexed 0 xs)"
| "objectEntries (JObj fs) = Inr fs"

text \<open>
  The loop of \<open>handleRegisterCustomCommands\<close> over the entries: the state is the table
  and the list \<^verbatim>\<open>addedCommands\<close>.
\<close>

definition registerOne :: "table \<times> string list \<Rightarrow> string \<times> json \<Rightarrow> table \<times> string list" where
  "registerOne st e =
     (case st of (tbl, addedCommands) \<Rightarrow>
        (case e of (wdioCmd, mapping) \<Rightarrow>
           if \<not> truthyProp (getProp tbl wdioCmd)
           then (setProp tbl wdioCmd mapping, addedCommands @ [wdioCmd])
           else (tbl, addedCommands)))"

text \<open>
  What the handler answers: the error text when \<^verbatim>\<open>JSON.parse\<close> raised, or the data its
  report is written from (each added command with the \<^verbatim>\<open>method\<close> the table now holds
  for it, and the number of own keys of the table).
\<close>

datatype registerResponse =
    ErrorResponse string
  | Registered "(string \<times> jsvalue) list" nat

fun methodLines :: "table \<Rightarrow> string list \<Rightarrow> failure + (string \<times> jsvalue) list" where
  "methodLines tbl [] = Inr []"
| "methodLines tbl (cmd # cmds) =
     (case methodOfProp (getProp tbl cmd) of
        Inl e \<Rightarrow> Inl e
      | Inr m \<Rightarrow>
          (case methodLines tbl cmds of
             Inl e \<Rightarrow> Inl e
           | Inr ls \<Rightarrow> Inr ((cmd, m) # ls)))"

text \<open>
  \<open>handleRegisterCustomCommands\<close>. The table is the shared \<^verbatim>\<open>COMMAND_MAPPINGS\<close> object:
  the handler takes it and returns it updated, beside its answer or the failure it
  raises. \<open>parsed\<close> is what \<^verbatim>\<open>JSON.parse(commands)\<close> yields, \<open>None\<close> when it raises. A
  failure raised after the loop leaves the table updated.
\<close>

definition handleRegisterCustomCommands ::
  "table \<Rightarrow> json option \<Rightarrow> table \<times> (failure + registerResponse)" where
  "handleRegisterCustomCommands tbl parsed =
     (case parsed of
        None \<Rightarrow> (tbl, Inr (ErrorResponse ''Error: commands must be a valid JSON object''))
      | Some customCommands \<Rightarrow>
          (case objectEntries customCommands of
             Inl e \<Rightarrow> (tbl, Inl e)
           | Inr entries \<Rightarrow>
               (case foldl registerOne (tbl, []) entries of
                  (tbl', addedCommands) \<Rightarrow>
                    (tbl',
                     (case methodLines tbl' addedCommands of
                        Inl e \<Rightarrow> Inl e
                      | Inr ls \<Rightarrow> Inr (Registered ls (length tbl')))))))"

section \<open>Syntax trees (the trees of the Babel parser, as src/utils/parser.js and the transformers read them)\<close>

text \<open>
  A node carries its kind and the fields the repository's code reads, writes or
  traverses; positions, raw texts and flags it never looks at are left out. The name
  of an identifier is a JavaScript value: the parser yields a string, and the rewrite
  pass can store what a table lookup returned. \<open>Other\<close> is a node of any other kind
  with its child nodes in traversal order; \<open>Absent\<close> is an empty slot (\<^verbatim>\<open>null\<close> or
  \<^verbatim>\<open>undefined\<close> where a node could stand). The source of an import declaration is
  the value of its string literal. The tree of a file is its \<open>Program\<close> node.
\<close>

datatype node =
    Identifier jsvalue
  | StringLiteral string
  | CallExpression node "node list"
  | MemberExpression node node bool
  | ArrowFunctionExpression "node list" node
  | FunctionExpression "node list" node
  | ObjectPattern "node list"
  | ObjectExpression "node list"
  | ObjectProperty node node bool bool
  | ArrayExpression "node list"
  | ImportDeclaration "node list" string
  | ImportSpecifier node node
  | ImportDefaultSpecifier node
  | ImportNamespaceSpecifier node
  | VariableDeclaration "node list"
  | VariableDeclarator node node
  | Program "node list"
  | BlockStatement "node list"
  | Other string "node list"
  | Absent

abbreviation Id :: "string \<Rightarrow> node" where
  "Id s \<equiv> Identifier (Some (JStr s))"

text \<open>\<^verbatim>\<open>t.isIdentifier(n) && n.name === s\<close>.\<close>

fun isIdentifierNamed :: "node \<Rightarrow> string \<Rightarrow> bool" where
  "isIdentifierNamed (Identifier v) s = (v = Some (JStr s))"
| "isIdentifierNamed n s = False"

text \<open>\<^verbatim>\<open>n?.name\<close> of a node in a property slot: only an identifier has a name.\<close>

fun nameOf :: "node \<Rightarrow> jsvalue" where
  "nameOf (Identifier v) = v"
| "nameOf n = None"

text \<open>\<^verbatim>\<open>xs[i]\<close> of an array of nodes: \<^verbatim>\<open>undefined\<close> out of range.\<close>

fun nodeAt :: "node list \<Rightarrow> nat \<Rightarrow> node" where
  "nodeAt [] i = Absent"
| "nodeAt (x # xs) 0 = x"
| "nodeAt (x # xs) (Suc i) = nodeAt xs i"

text \<open>The child nodes of a node, in the order the traversal visits them.\<close>

fun kids :: "node \<Rightarrow> node list" where
  "kids (Identifier v) = []"
| "kids (StringLiteral s) = []"
| "kids (CallExpression callee args) = callee # args"
| "kids (MemberExpression obj prop computed) = [obj, prop]"
| "kids (ArrowFunctionExpression params body) = params @ [body]"
| "kids (FunctionExpression params body) = params @ [body]"
| "kids (ObjectPattern props) = props"
| "kids (ObjectExpression props) = props"
| "kids (ObjectProperty k v computed shorthand) = [k, v]"
| "kids (ArrayExpression elems) = elems"
| "kids (ImportDeclaration specs source) = specs"
| "kids (ImportSpecifier local imported) = [imported, local]"
| "kids (ImportDefaultSpecifier local) = [local]"
| "kids (ImportNamespaceSpecifier local) = [local]"
| "kids (VariableDeclaration decls) = decls"
| "kids (VariableDeclarator i init) = [i, init]"
| "kids (Program body) = body"
| "kids (BlockStatement body) = body"
| "kids (Other k ns) = ns"
| "kids Absent = []"

lemma kids_smaller: "k \<in> set (kids n) \<Longrightarrow> size k < size n"
  by (cases n) (auto simp: less_Suc_eq_le dest: size_list_estimation' [where f = size, OF _ order_refl])

text \<open>Every node of a tree, in the order a traversal enters them.\<close>

function allNodes :: "node \<Rightarrow> node list" where
  "allNodes n = n # concat (map allNodes (kids n))"
  by pat_completeness auto
termination
  by (relation "measure size") (auto simp: kids_smaller)

declare allNodes.simps [simp del]

section \<open>Framework classifier (detectFramework of src/utils/parser.js)\<close>

text \<open>
  The argument of a \<^verbatim>\<open>require\<close> call that initialises a declarator, when it is a string
  literal.
\<close>

fun requireArgument :: "node \<Rightarrow> string option" where
  "requireArgument (CallExpression callee args) =
     (if isIdentifierNamed callee ''require''
      then (case nodeAt args 0 of StringLiteral v \<Rightarrow> Some v | _ \<Rightarrow> None)
      else None)"
| "requireArgument n = None"

text \<open>What the three visitors of \<open>detectFramework\<close> find at one node.\<close>

fun wdioMarker :: "node \<Rightarrow> bool" where
  "wdioMarker (CallExpression callee args) =
     (isIdentifierNamed callee ''$'' \<or> isIdentifierNamed callee ''$$'')"
| "wdioMarker (ImportDeclaration specs source) =
     (strIncludes source ''webdriverio'' \<or> strIncludes source ''wdio'')"
| "wdioMarker (VariableDeclarator i init) =
     (case requireArgument init of
        Some v \<Rightarrow> strIncludes v ''chai'' \<or> strIncludes v ''wdio''
      | None \<Rightarrow> False)"
| "wdioMarker n = False"

fun playwrightMarker :: "node \<Rightarrow> bool" where
  "playwrightMarker (CallExpression callee args) =
     (case callee of
        MemberExpression obj prop computed \<Rightarrow> isIdentifierNamed obj ''page''
      | _ \<Rightarrow> False)"
| "playwrightMarker (ImportDeclaration specs source) = (source = ''@playwright/test'')"
| "playwrightMarker (VariableDeclarator i init) =
     (case requireArgument init of Some v \<Rightarrow> v = ''@playwright/test'' | None \<Rightarrow> False)"
| "playwrightMarker n = False"

record frameworkVerdict =
  isWdio :: bool
  isPlaywright :: bool
  isMixed :: bool
  isUnknown :: bool

text \<open>
  \<open>detectFramework\<close> runs \<^verbatim>\<open>traverse.default(ast, visitors)\<close> with scopes on. While it
  builds the scopes of the program, the traversal registers every declaration, and
  raises a TypeError (\<^verbatim>\<open>Duplicate declaration\<close>) when one scope declares a name twice in
  a way the language forbids. \<open>parseCode\<close> runs the parser with \<^verbatim>\<open>errorRecovery\<close>, so it
  does return such programs, for instance for \<^verbatim>\<open>const a = 1; const a = 2;\<close>. The
  visitors only set two local flags, so a run that raises leaves nothing behind. The
  crawl is code of the library; here it is a parameter that gives the failure the crawl
  raises on a program, or \<open>None\<close> when the crawl succeeds.
\<close>

type_synonym scopeCrawl = "node \<Rightarrow> failure option"

definition detectFramework :: "scopeCrawl \<Rightarrow> node \<Rightarrow> failure + frameworkVerdict" where
  "detectFramework crawl ast =
     (case crawl ast of
        Some e \<Rightarrow> Inl e
      | None \<Rightarrow>
          (let hasWdio = list_ex wdioMarker (allNodes ast);
               hasPlaywright = list_ex playwrightMarker (allNodes ast)
           in Inr \<lparr>isWdio = hasWdio \<and> \<not> hasPlaywright,
                   isPlaywright = hasPlaywright \<and> \<not> hasWdio,
                   isMixed = hasWdio \<and> hasPlaywright,
                   isUnknown = \<not> hasWdio \<and> \<not> hasPlaywright\<rparr>))"

text \<open>
  The hook names \<open>extractAstInfo\<close> recognises, and the hooks it records at one call
  expression: the unqualified form and the form qualified by \<^verbatim>\<open>test\<close>.
\<close>

definition hookNames :: "string list" where
  "hookNames = [''before'', ''after'', ''beforeEach'', ''afterEach'', ''beforeAll'', ''afterAll'']"

fun hooksAt :: "node \<Rightarrow> string list" where
  "hooksAt (CallExpression callee args) =
     (case callee of
        Identifier v \<Rightarrow>
          (case v of Some (JStr s) \<Rightarrow> if s \<in> set hookNames then [s] else [] | _ \<Rightarrow> [])
      | MemberExpression obj prop computed \<Rightarrow>
          (case nameOf prop of
             Some (JStr s) \<Rightarrow> if isIdentifierNamed obj ''test'' \<and> s \<in> set hookNames then [s] else []
           | _ \<Rightarrow> [])
      | _ \<Rightarrow> [])"
| "hooksAt n = []"

section \<open>Rewrite engine (performAstMigration of src/transformers/migration.js)\<close>

subsection \<open>Re-parsing a locator expression\<close>

text \<open>
  \<^verbatim>\<open>parser.parseExpression\<close> is called on the text \<open>transformSelector\<close> builds, which has
  the form \<^verbatim>\<open>page.NAME('...')\<close> with the selector pasted between the quotes. The model
  decides the texts whose first string literal is free of escapes: the literal ends at
  the first quote; a line terminator or the end of the text before that quote is a
  syntax error; when the literal is followed by the closing parenthesis and nothing
  else, the result is the call; a number, a string or an identifier other than the
  operators \<^verbatim>\<open>in\<close> and \<^verbatim>\<open>instanceof\<close> directly after the literal is a syntax error.
  Every other text is left undecided.
\<close>

datatype lexOutcome = Closed string string | Unterminated | EscapeSeen

fun lexSingleQuoted :: "string \<Rightarrow> lexOutcome" where
  "lexSingleQuoted [] = Unterminated"
| "lexSingleQuoted (c # cs) =
     (if c = CHR 0x27 then Closed [] cs
      else if c = CHR 0x5C then EscapeSeen
      else if isLineTerminator c then Unterminated
      else (case lexSingleQuoted cs of
              Closed v rest \<Rightarrow> Closed (c # v) rest
            | Unterminated \<Rightarrow> Unterminated
            | EscapeSeen \<Rightarrow> EscapeSeen))"

definition isIdentPart :: "char \<Rightarrow> bool" where
  "isIdentPart c = (isWordChar c \<or> c = CHR ''$'')"

datatype parseOutcome = Parsed node | SyntaxError | Undecided

definition afterLiteral :: "string \<Rightarrow> string \<Rightarrow> string \<Rightarrow> parseOutcome" where
  "afterLiteral m v rest =
     (if rest = '')''
      then Parsed (CallExpression (MemberExpression (Id ''page'') (Id m) False) [StringLiteral v])
      else (case rest of
              [] \<Rightarrow> SyntaxError
            | c # cs \<Rightarrow>
                if c \<in> set digitChars \<or> isQuote c then SyntaxError
                else if isIdentPart c
                then (if takeWhile isIdentPart rest \<in> {''in'', ''instanceof''}
                      then Undecided else SyntaxError)
                else Undecided))"

definition parseExpression :: "string \<Rightarrow> parseOutcome" where
  "parseExpression text =
     (case stripPrefix ''page.'' text of
        None \<Rightarrow> Undecided
      | Some r1 \<Rightarrow>
          (case takeWhile isIdentPart r1 of
             [] \<Rightarrow> Undecided
           | c # cs \<Rightarrow>
               if c \<in> set digitChars then Undecided
               else (case stripPrefix (''('' @ [CHR 0x27]) (dropWhile isIdentPart r1) of
                       None \<Rightarrow> Undecided
                     | Some r3 \<Rightarrow>
                         (case lexSingleQuoted r3 of
                            Unterminated \<Rightarrow> SyntaxError
                          | EscapeSeen \<Rightarrow> Undecided
                          | Closed v rest \<Rightarrow> afterLiteral (c # cs) v rest))))"

subsection \<open>The state of one migration\<close>

text \<open>
  The local variables \<^verbatim>\<open>changes\<close>, \<^verbatim>\<open>migratedTags\<close> and \<^verbatim>\<open>hasPlaywrightImport\<close> that the
  visitors update.
\<close>

record rewriteState =
  changes :: "string list"
  migratedTags :: "string list"
  hasPlaywrightImport :: bool

definition initialState :: rewriteState where
  "initialState = \<lparr>changes = [], migratedTags = [], hasPlaywrightImport = False\<rparr>"

definition pushChange :: "string \<Rightarrow> rewriteState \<Rightarrow> rewriteState" where
  "pushChange c st = st\<lparr>changes := changes st @ [c]\<rparr>"

text \<open>
  \<^verbatim>\<open>import { test, expect } from '@playwright/test'\<close>, and the parameter list
  \<^verbatim>\<open>({ page })\<close> given to a callback that has no parameter.
\<close>

definition playwrightSpecifiers :: "node list" where
  "playwrightSpecifiers =
     [ImportSpecifier (Id ''test'') (Id ''test''), ImportSpecifier (Id ''expect'') (Id ''expect'')]"

definition playwrightImport :: node where
  "playwrightImport = ImportDeclaration playwrightSpecifiers ''@playwright/test''"

definition pageParam :: node where
  "pageParam = ObjectPattern [ObjectProperty (Id ''page'') (Id ''page'') False True]"

fun injectPage :: "node \<Rightarrow> node" where
  "injectPage (ArrowFunctionExpression params body) =
     ArrowFunctionExpression (if params = [] then [pageParam] else params) body"
| "injectPage (FunctionExpression params body) =
     FunctionExpression (if params = [] then [pageParam] else params) body"
| "injectPage n = n"

subsection \<open>The visitors\<close>

definition visitImportDeclaration :: "node \<Rightarrow> rewriteState \<Rightarrow> node \<times> rewriteState" where
  "visitImportDeclaration n st =
     (case n of
        ImportDeclaration specs source \<Rightarrow>
          if source = ''chai'' \<or> strIncludes source ''chai''
          then (ImportDeclaration playwrightSpecifiers ''@playwright/test'',
                pushChange ''Replaced chai import with @playwright/test''
                  (st\<lparr>hasPlaywrightImport := True\<rparr>))
          else (n, st)
      | _ \<Rightarrow> (n, st))"

definition isChaiRequire :: "node \<Rightarrow> bool" where
  "isChaiRequire decl =
     (case decl of
        VariableDeclarator i init \<Rightarrow>
          (case requireArgument init of
             Some v \<Rightarrow> v = ''chai'' \<or> strIncludes v ''chai''
           | None \<Rightarrow> False)
      | _ \<Rightarrow> False)"

text \<open>
  The \<^verbatim>\<open>forEach\<close> over the declarators of a variable declaration. The loop runs by index
  over the array it splices: after a declarator is removed, the next one has moved
  into its place and is skipped. The result is the declarators left, the import
  declarations inserted before the statement, and the state.
\<close>

function requireLoop ::
  "nat \<Rightarrow> node list \<Rightarrow> node list \<Rightarrow> rewriteState \<Rightarrow> node list \<times> node list \<times> rewriteState" where
  "requireLoop i decls inserted st =
     (if i < length decls
      then (if isChaiRequire (decls ! i)
            then requireLoop (Suc i) (take i decls @ drop (Suc i) decls) (inserted @ [playwrightImport])
                   (pushChange ''Replaced chai require with @playwright/test import''
                      (st\<lparr>hasPlaywrightImport := True\<rparr>))
            else requireLoop (Suc i) decls inserted st)
      else (decls, inserted, st))"
  by pat_completeness auto
termination
  by (relation "measure (\<lambda>(i, decls, inserted, st). length decls - i)") auto

declare requireLoop.simps [simp del]

text \<open>The table \<^verbatim>\<open>hookMap\<close>, an object literal like the command table.\<close>

definition hookMap :: table where
  "hookMap =
     [(''before'', JStr ''beforeAll''), (''after'', JStr ''afterAll''),
      (''beforeEach'', JStr ''beforeEach''), (''afterEach'', JStr ''afterEach'')]"

text \<open>
  The rules of the \<^verbatim>\<open>CallExpression\<close> visitor, in the order of the source. Each reads the
  callee the visitor saved on entry and updates the callee and the arguments of the
  node, and the state.
\<close>

type_synonym callParts = "node \<times> node list \<times> rewriteState"

definition describeRule :: "node \<Rightarrow> callParts \<Rightarrow> callParts" where
  "describeRule callee p =
     (case p of (c, args, st) \<Rightarrow>
        if isIdentifierNamed callee ''describe''
        then (MemberExpression (Id ''test'') (Id ''describe'') False, args,
              pushChange ''Transformed describe to test.describe'' st)
        else p)"

definition tagOptions :: "string list \<Rightarrow> node" where
  "tagOptions extractedTags =
     ObjectExpression
       [ObjectProperty (Id ''tag'')
          (ArrayExpression (map (\<lambda>tag. StringLiteral (''@'' @ tag)) extractedTags)) False False]"

definition migrateTags :: "node list \<Rightarrow> rewriteState \<Rightarrow> node list \<times> rewriteState" where
  "migrateTags args st =
     (case nodeAt args 0 of
        StringLiteral originalName \<Rightarrow>
          if extractTagsFromString originalName \<noteq> []
          then ([StringLiteral (removeTagsFromString originalName),
                 tagOptions (extractTagsFromString originalName),
                 nodeAt args 1],
                pushChange (''Migrated tags ['' @ join '', '' (extractTagsFromString originalName)
                            @ ''] to Playwright tag annotation'')
                  (st\<lparr>migratedTags := migratedTags st @ extractTagsFromString originalName\<rparr>))
          else (args, st)
      | _ \<Rightarrow> (args, st))"

definition injectLast :: "node list \<Rightarrow> node list" where
  "injectLast args = (if args = [] then [] else butlast args @ [injectPage (last args)])"

definition itRule :: "node \<Rightarrow> callParts \<Rightarrow> callParts" where
  "itRule callee p =
     (case p of (c, args, st) \<Rightarrow>
        if isIdentifierNamed callee ''it''
        then (case migrateTags args st of
                (args', st') \<Rightarrow>
                  (Id ''test'', injectLast args',
                   pushChange ''Transformed it to test with page fixture'' st'))
        else p)"

definition injectFirst :: "node list \<Rightarrow> node list" where
  "injectFirst args = (case args of [] \<Rightarrow> [] | callback # rest \<Rightarrow> injectPage callback # rest)"

text \<open>
  \<^verbatim>\<open>hookMap[callee.name]\<close> also finds the names every object inherits; the builder
  \<^verbatim>\<open>t.identifier\<close> then raises a TypeError, its argument being no string.
\<close>

definition hookRule :: "node \<Rightarrow> callParts \<Rightarrow> failure + callParts" where
  "hookRule callee p =
     (case p of (c, args, st) \<Rightarrow>
        (case callee of
           Identifier v \<Rightarrow>
             if truthyProp (getProp hookMap (toStr v))
             then (case getProp hookMap (toStr v) of
                     Own (JStr h) \<Rightarrow>
                       Inr (MemberExpression (Id ''test'') (Id h) False, injectFirst args,
                            pushChange (''Transformed '' @ toStr v @ '' to test.'' @ h) st)
                   | _ \<Rightarrow> Inl TypeError)
             else Inr p
         | _ \<Rightarrow> Inr p))"

text \<open>
  The element lookup rule: the node is replaced by the re-parsed locator expression
  (\<open>Some\<close> of it), or left as it is (\<open>None\<close>).
\<close>

definition selectorRule :: "node \<Rightarrow> callParts \<Rightarrow> failure + (node option \<times> rewriteState)" where
  "selectorRule callee p =
     (case p of (c, args, st) \<Rightarrow>
        if isIdentifierNamed callee ''$'' \<or> isIdentifierNamed callee ''$$''
        then (case nodeAt args 0 of
                StringLiteral selector \<Rightarrow>
                  (case parseExpression (selectorTransform.code (transformSelector selector)) of
                     SyntaxError \<Rightarrow> Inl ReparseFailure
                   | Undecided \<Rightarrow> Inl NotModelled
                   | Parsed newAst \<Rightarrow>
                       Inr (Some newAst,
                            pushChange (''Transformed '' @ toStr (nameOf callee) @ ''('' @ [CHR 0x27]
                                        @ selector @ [CHR 0x27] @ '') to ''
                                        @ selectorTransform.code (transformSelector selector)) st))
              | _ \<Rightarrow> Inr (None, st))
        else Inr (None, st))"

fun setName :: "node \<Rightarrow> jsvalue \<Rightarrow> node" where
  "setName (Identifier v) w = Identifier w"
| "setName n w = n"

text \<open>\<^verbatim>\<open>mapping.method\<close> of a lookup that was truthy.\<close>

fun methodOfTruthy :: "property \<Rightarrow> jsvalue" where
  "methodOfTruthy (Own v) = methodOf v"
| "methodOfTruthy p = None"

text \<open>\<^verbatim>\<open>s.split('.')\<close>.\<close>

fun splitDot :: "string \<Rightarrow> string list" where
  "splitDot [] = [[]]"
| "splitDot (c # cs) =
     (if c = CHR ''.'' then [] # splitDot cs
      else (case splitDot cs of [] \<Rightarrow> [[c]] | w # ws \<Rightarrow> (c # w) # ws))"

definition renameRule :: "table \<Rightarrow> jsvalue \<Rightarrow> node \<times> rewriteState \<Rightarrow> node \<times> rewriteState" where
  "renameRule tbl methodName p =
     (case p of (prop, st) \<Rightarrow>
        if truthyValue methodName \<and> truthyProp (getProp tbl (toStr methodName))
        then (setName prop (methodOfTruthy (getProp tbl (toStr methodName))),
              pushChange (''Transformed .'' @ toStr methodName @ ''() to .''
                          @ toStr (methodOfTruthy (getProp tbl (toStr methodName))) @ ''()'') st)
        else p)"

definition browserRule ::
  "table \<Rightarrow> jsvalue \<Rightarrow> node \<times> node \<times> rewriteState \<Rightarrow> failure + node \<times> node \<times> rewriteState" where
  "browserRule tbl methodName p =
     (case p of (obj, prop, st) \<Rightarrow>
        if isIdentifierNamed obj ''browser''
           \<and> truthyProp (getProp tbl (''browser.'' @ toStr methodName))
        then (case methodOfTruthy (getProp tbl (''browser.'' @ toStr methodName)) of
                Some (JStr m) \<Rightarrow>
                  Inr (Id (hd (splitDot m)),
                       setName prop (case splitDot m of a # b # rest \<Rightarrow> Some (JStr b) | _ \<Rightarrow> None),
                       pushChange (''Transformed browser.'' @ toStr methodName @ '' to '' @ m) st)
              | _ \<Rightarrow> Inl TypeError)
        else Inr p)"

definition memberRule :: "table \<Rightarrow> node \<Rightarrow> callParts \<Rightarrow> failure + callParts" where
  "memberRule tbl callee p =
     (case p of (c, args, st) \<Rightarrow>
        (case callee of
           MemberExpression obj prop computed \<Rightarrow>
             (case renameRule tbl (nameOf prop) (prop, st) of
                (prop1, st1) \<Rightarrow>
                  (case browserRule tbl (nameOf prop) (obj, prop1, st1) of
                     Inl e \<Rightarrow> Inl e
                   | Inr (obj2, prop2, st2) \<Rightarrow>
                       Inr (MemberExpression obj2 prop2 computed, args, st2)))
         | _ \<Rightarrow> Inr p))"

text \<open>
  The \<^verbatim>\<open>CallExpression\<close> visitor: the node after the visit, the state, and whether the
  node was replaced (\<^verbatim>\<open>path.replaceWith\<close>).
\<close>

definition visitCallExpression ::
  "table \<Rightarrow> node \<Rightarrow> rewriteState \<Rightarrow> failure + node \<times> rewriteState \<times> bool" where
  "visitCallExpression tbl n st =
     (case n of
        CallExpression callee args \<Rightarrow>
          (case hookRule callee (itRule callee (describeRule callee (callee, args, st))) of
             Inl e \<Rightarrow> Inl e
           | Inr p3 \<Rightarrow>
               (case selectorRule callee p3 of
                  Inl e \<Rightarrow> Inl e
                | Inr (Some newAst, st4) \<Rightarrow> Inr (newAst, st4, True)
                | Inr (None, st4) \<Rightarrow>
                    (case memberRule tbl callee p3 of
                       Inl e \<Rightarrow> Inl e
                     | Inr (c5, args5, st5) \<Rightarrow> Inr (CallExpression c5 args5, st5, False))))
      | _ \<Rightarrow> Inr (n, st, False))"

subsection \<open>The traversal\<close>

text \<open>
  \<open>withKids n ks\<close> is the node \<open>n\<close> with the child nodes \<open>ks\<close> in place of its own.
\<close>

fun withKids :: "node \<Rightarrow> node list \<Rightarrow> node" where
  "withKids (CallExpression callee args) ks = CallExpression (nodeAt ks 0) (tl ks)"
| "withKids (MemberExpression obj prop computed) ks = MemberExpression (nodeAt ks 0) (nodeAt ks 1) computed"
| "withKids (ArrowFunctionExpression params body) ks = ArrowFunctionExpression (butlast ks) (last ks)"
| "withKids (FunctionExpression params body) ks = FunctionExpression (butlast ks) (last ks)"
| "withKids (ObjectPattern props) ks = ObjectPattern ks"
| "withKids (ObjectExpression props) ks = ObjectExpression ks"
| "withKids (ObjectProperty k v computed shorthand) ks = ObjectProperty (nodeAt ks 0) (nodeAt ks 1) computed shorthand"
| "withKids (ArrayExpression elems) ks = ArrayExpression ks"
| "withKids (ImportDeclaration specs source) ks = ImportDeclaration ks source"
| "withKids (ImportSpecifier local imported) ks = ImportSpecifier (nodeAt ks 1) (nodeAt ks 0)"
| "withKids (ImportDefaultSpecifier local) ks = ImportDefaultSpecifier (nodeAt ks 0)"
| "withKids (ImportNamespaceSpecifier local) ks = ImportNamespaceSpecifier (nodeAt ks 0)"
| "withKids (VariableDeclaration decls) ks = VariableDeclaration ks"
| "withKids (VariableDeclarator i init) ks = VariableDeclarator (nodeAt ks 0) (nodeAt ks 1)"
| "withKids (Program body) ks = Program ks"
| "withKids (BlockStatement body) ks = BlockStatement ks"
| "withKids (Other kd ns) ks = Other kd ks"
| "withKids n ks = n"

text \<open>
  Two measures for the termination of the traversal: the number of call expressions in
  a tree, which no rule of the visitor increases, and the number of nodes.
\<close>

fun calls :: "node \<Rightarrow> nat" where
  "calls (Identifier v) = 0"
| "calls (StringLiteral s) = 0"
| "calls (CallExpression c as) = Suc (calls c + sum_list (map calls as))"
| "calls (MemberExpression ob pr cm) = calls ob + calls pr"
| "calls (ArrowFunctionExpression ps b) = calls b + sum_list (map calls ps)"
| "calls (FunctionExpression ps b) = calls b + sum_list (map calls ps)"
| "calls (ObjectPattern ps) = sum_list (map calls ps)"
| "calls (ObjectExpression ps) = sum_list (map calls ps)"
| "calls (ObjectProperty k va cm sh) = calls k + calls va"
| "calls (ArrayExpression es) = sum_list (map calls es)"
| "calls (ImportDeclaration sp src) = sum_list (map calls sp)"
| "calls (ImportSpecifier l im) = calls l + calls im"
| "calls (ImportDefaultSpecifier l) = calls l"
| "calls (ImportNamespaceSpecifier l) = calls l"
| "calls (VariableDeclaration ds) = sum_list (map calls ds)"
| "calls (VariableDeclarator i init) = calls i + calls init"
| "calls (Program body) = sum_list (map calls body)"
| "calls (BlockStatement body) = sum_list (map calls body)"
| "calls (Other kd ns) = sum_list (map calls ns)"
| "calls Absent = 0"

fun weight :: "node \<Rightarrow> nat" where
  "weight (Identifier v) = Suc 0"
| "weight (StringLiteral s) = Suc 0"
| "weight (CallExpression c as) = Suc (weight c + sum_list (map weight as))"
| "weight (MemberExpression ob pr cm) = Suc (weight ob + weight pr)"
| "weight (ArrowFunctionExpression ps b) = Suc (weight b + sum_list (map weight ps))"
| "weight (FunctionExpression ps b) = Suc (weight b + sum_list (map weight ps))"
| "weight (ObjectPattern ps) = Suc (sum_list (map weight ps))"
| "weight (ObjectExpression ps) = Suc (sum_list (map weight ps))"
| "weight (ObjectProperty k va cm sh) = Suc (weight k + weight va)"
| "weight (ArrayExpression es) = Suc (sum_list (map weight es))"
| "weight (ImportDeclaration sp src) = Suc (sum_list (map weight sp))"
| "weight (ImportSpecifier l im) = Suc (weight l + weight im)"
| "weight (ImportDefaultSpecifier l) = Suc (weight l)"
| "weight (ImportNamespaceSpecifier l) = Suc (weight l)"
| "weight (VariableDeclaration ds) = Suc (sum_list (map weight ds))"
| "weight (VariableDeclarator i init) = Suc (weight i + weight init)"
| "weight (Program body) = Suc (sum_list (map weight body))"
| "weight (BlockStatement body) = Suc (sum_list (map weight body))"
| "weight (Other kd ns) = Suc (sum_list (map weight ns))"
| "weight Absent = Suc 0"

lemma calls_kids: "sum_list (map calls (kids n)) \<le> calls n"
  by (cases n) auto

lemma weight_kids: "sum_list (map weight (kids n)) < weight n"
  by (cases n) auto

lemma weight_pos: "0 < weight n"
  by (cases n) simp_all


definition callsOf :: "callParts \<Rightarrow> nat" where
  "callsOf p = (case p of (c, args, st) \<Rightarrow> calls c + sum_list (map calls args))"

lemma calls_injectPage [simp]: "calls (injectPage n) = calls n"
  by (cases n) (auto simp: pageParam_def)

lemma calls_setName [simp]: "calls (setName n v) = calls n"
  by (cases n) auto

lemma calls_nodeAt: "calls (nodeAt xs i) \<le> sum_list (map calls xs)"
  by (induction xs i rule: nodeAt.induct) auto

lemma calls_tagOptions [simp]: "calls (tagOptions ts) = 0"
  by (simp add: tagOptions_def comp_def)

lemma calls_injectLast [simp]: "sum_list (map calls (injectLast xs)) = sum_list (map calls xs)"
proof (cases "xs = []")
  case True
  then show ?thesis by (simp add: injectLast_def)
next
  case False
  have "sum_list (map calls (butlast xs @ [last xs])) = sum_list (map calls (butlast xs)) + calls (last xs)"
    by (simp del: append_butlast_last_id)
  then have "sum_list (map calls xs) = sum_list (map calls (butlast xs)) + calls (last xs)"
    unfolding append_butlast_last_id [OF False] .
  with False show ?thesis by (simp add: injectLast_def)
qed

lemma calls_injectFirst [simp]: "sum_list (map calls (injectFirst xs)) = sum_list (map calls xs)"
  by (cases xs) (auto simp: injectFirst_def)

lemma calls_migrateTags:
  "sum_list (map calls (fst (migrateTags args st))) \<le> sum_list (map calls args)"
  using calls_nodeAt [of args 1]
  by (cases "nodeAt args 0") (simp_all add: migrateTags_def)

lemma callsOf_describeRule: "callsOf (describeRule callee (c, args, st)) \<le> callsOf (c, args, st)"
  by (simp add: describeRule_def callsOf_def)

lemma callsOf_itRule: "callsOf (itRule callee (c, args, st)) \<le> callsOf (c, args, st)"
proof (cases "migrateTags args st")
  case (Pair args' st')
  with calls_migrateTags [of args st] show ?thesis
    by (simp add: itRule_def callsOf_def)
qed

lemma hookRule_shape:
  "hookRule callee (c, args, st) = Inr q \<Longrightarrow>
   q = (c, args, st) \<or> (\<exists>h s. q = (MemberExpression (Id ''test'') (Id h) False, injectFirst args, s))"
proof (cases callee)
  case (Identifier v)
  assume "hookRule callee (c, args, st) = Inr q"
  with Identifier show ?thesis
    by (cases "getProp hookMap (toStr v)")
       (auto simp: hookRule_def split: if_splits json.splits)
qed (simp_all add: hookRule_def)

lemma callsOf_hookRule: "hookRule callee (c, args, st) = Inr q \<Longrightarrow> callsOf q \<le> callsOf (c, args, st)"
  using hookRule_shape [of callee c args st q] by (auto simp: callsOf_def)

lemma renameRule_calls: "calls (fst (renameRule tbl m (prop, st))) = calls prop"
  by (simp add: renameRule_def)

lemma browserRule_calls:
  "browserRule tbl m (obj, prop, st) = Inr (obj2, prop2, st2) \<Longrightarrow>
   calls obj2 \<le> calls obj \<and> calls prop2 = calls prop"
  by (cases "methodOfTruthy (getProp tbl (''browser.'' @ toStr m))")
     (auto simp: browserRule_def split: if_splits json.splits)

lemma callsOf_memberRule:
  "memberRule tbl c (c, args, st) = Inr q \<Longrightarrow> callsOf q \<le> callsOf (c, args, st)"
proof (cases c)
  case (MemberExpression obj pr computed)
  assume m: "memberRule tbl c (c, args, st) = Inr q"
  obtain prop1 st1 where r: "renameRule tbl (nameOf pr) (pr, st) = (prop1, st1)"
    by (cases "renameRule tbl (nameOf pr) (pr, st)")
  with renameRule_calls [of tbl "nameOf pr" pr st] have c1: "calls prop1 = calls pr" by simp
  from m MemberExpression r obtain obj2 prop2 st2 where
    b: "browserRule tbl (nameOf pr) (obj, prop1, st1) = Inr (obj2, prop2, st2)"
    and q: "q = (MemberExpression obj2 prop2 computed, args, st2)"
    by (auto simp: memberRule_def split: sum.splits)
  from browserRule_calls [OF b] c1 q MemberExpression show ?thesis
    by (simp add: callsOf_def)
qed (simp_all add: memberRule_def)

lemma memberRule_other:
  "\<forall>obj prop computed. callee \<noteq> MemberExpression obj prop computed \<Longrightarrow>
   memberRule tbl callee p = Inr p"
  by (cases callee; cases p) (auto simp: memberRule_def)

lemma rules_member:
  "hookRule (MemberExpression obj prop computed)
     (itRule (MemberExpression obj prop computed)
        (describeRule (MemberExpression obj prop computed) p)) = Inr p"
  by (cases p) (simp add: hookRule_def itRule_def describeRule_def)

lemma visit_not_replaced:
  assumes "visitCallExpression tbl (CallExpression c as) st = Inr (n1, st1, False)"
  shows "\<exists>p3 q. hookRule c (itRule c (describeRule c (c, as, st))) = Inr p3
           \<and> memberRule tbl c p3 = Inr q \<and> n1 = CallExpression (fst q) (fst (snd q))
           \<and> st1 = snd (snd q)"
proof -
  let ?h = "hookRule c (itRule c (describeRule c (c, as, st)))"
  have A: "(case ?h of
             Inl e \<Rightarrow> Inl e
           | Inr p3 \<Rightarrow>
               (case selectorRule c p3 of
                  Inl e \<Rightarrow> Inl e
                | Inr (Some newAst, st4) \<Rightarrow> Inr (newAst, st4, True)
                | Inr (None, st4) \<Rightarrow>
                    (case memberRule tbl c p3 of
                       Inl e \<Rightarrow> Inl e
                     | Inr (c5, args5, st5) \<Rightarrow> Inr (CallExpression c5 args5, st5, False))))
           = Inr (n1, st1, False)"
    using assms unfolding visitCallExpression_def by (simp only: node.case)
  show ?thesis
  proof (cases ?h)
    case (Inl e)
    with A show ?thesis by (simp only: sum.case) simp
  next
    case (Inr p3)
    note h = Inr
    show ?thesis
    proof (cases "selectorRule c p3")
      case (Inl e)
      with A h show ?thesis by (simp only: sum.case) simp
    next
      case (Inr r)
      note sel = Inr
      obtain o4 st4 where r: "r = (o4, st4)" by (cases r)
      show ?thesis
      proof (cases o4)
        case (Some newAst)
        with A h sel r show ?thesis by (simp only: sum.case prod.case option.case) simp
      next
        case None
        show ?thesis
        proof (cases "memberRule tbl c p3")
          case (Inl e)
          with A h sel r None show ?thesis by (simp only: sum.case prod.case option.case) simp
        next
          case (Inr q)
          obtain c5 a5 s5 where q: "q = (c5, a5, s5)" by (cases q)
          from A h sel r None Inr q have "Inr (CallExpression c5 a5, s5, False) = (Inr (n1, st1, False) :: failure + node \<times> rewriteState \<times> bool)"
            by (simp only: sum.case prod.case option.case)
          then have "n1 = CallExpression c5 a5" "st1 = s5" by simp_all
          with h Inr q show ?thesis by simp
        qed
      qed
    qed
  qed
qed


lemma visit_calls:
  assumes "visitCallExpression tbl (CallExpression c as) st = Inr (n1, st1, False)"
  shows "sum_list (map calls (kids n1)) < calls (CallExpression c as)"
proof -
  let ?p2 = "itRule c (describeRule c (c, as, st))"
  obtain c2 a2 s2 where p2: "?p2 = (c2, a2, s2)" by (cases "?p2")
  obtain c1 a1 s1 where p1: "describeRule c (c, as, st) = (c1, a1, s1)"
    by (cases "describeRule c (c, as, st)")
  from visit_not_replaced [OF assms] obtain p3 q where h: "hookRule c ?p2 = Inr p3"
    and m: "memberRule tbl c p3 = Inr q"
    and n1: "n1 = CallExpression (fst q) (fst (snd q))"
    by blast
  have le2: "callsOf ?p2 \<le> callsOf (c, as, st)"
    using callsOf_describeRule [of c c as st] callsOf_itRule [of c c1 a1 s1] p1 by simp
  from h p2 have le3: "callsOf p3 \<le> callsOf ?p2" using callsOf_hookRule [of c c2 a2 s2 p3] by simp
  have "callsOf q \<le> callsOf (c, as, st)"
  proof (cases "\<exists>obj pr computed. c = MemberExpression obj pr computed")
    case True
    then obtain obj pr computed where c: "c = MemberExpression obj pr computed" by blast
    with h have "p3 = (c, as, st)" using rules_member [of obj pr computed "(c, as, st)"] by simp
    with m show ?thesis using callsOf_memberRule [of tbl c as st q] by simp
  next
    case False
    then have "memberRule tbl c p3 = Inr p3" by (intro memberRule_other) blast
    with m le2 le3 show ?thesis by simp
  qed
  with n1 show ?thesis by (cases q) (simp add: callsOf_def)
qed

lemma requireLoop_sum:
  "requireLoop i decls inserted st = (decls', inserted', st') \<Longrightarrow>
   sum_list (map f decls') \<le> sum_list (map (f :: node \<Rightarrow> nat) decls)"
proof (induction i decls inserted st rule: requireLoop.induct)
  case (1 i decls inserted st)
  show ?case
  proof (cases "i < length decls")
    case False
    with "1.prems" show ?thesis by (simp add: requireLoop.simps [of i decls])
  next
    case True
    show ?thesis
    proof (cases "isChaiRequire (decls ! i)")
      case False
      with True "1.prems" "1.IH"(2) show ?thesis by (simp add: requireLoop.simps [of i decls])
    next
      case c: True
      have "sum_list (map f (take i decls @ decls ! i # drop (Suc i) decls)) =
          sum_list (map f (take i decls)) + f (decls ! i) + sum_list (map f (drop (Suc i) decls))"
        by simp
      then have "sum_list (map f decls) =
          sum_list (map f (take i decls)) + f (decls ! i) + sum_list (map f (drop (Suc i) decls))"
        unfolding id_take_nth_drop [OF True, symmetric] .
      then have "sum_list (map f (take i decls @ drop (Suc i) decls)) \<le> sum_list (map f decls)"
        by simp
      moreover from True c "1.prems" "1.IH"(1)
      have "sum_list (map f decls') \<le> sum_list (map f (take i decls @ drop (Suc i) decls))"
        by (simp add: requireLoop.simps [of i decls])
      ultimately show ?thesis by simp
    qed
  qed
qed

lemma requireLoop_measures:
  "(decls', inserted', st') = requireLoop i decls inserted st \<Longrightarrow>
   sum_list (map calls decls') \<le> sum_list (map calls decls)
   \<and> sum_list (map weight decls') \<le> sum_list (map weight decls)"
  using requireLoop_sum [of i decls inserted st decls' inserted' st' calls]
    requireLoop_sum [of i decls inserted st decls' inserted' st' weight]
  by simp

text \<open>
  The traversal of \<^verbatim>\<open>traverse(ast, visitors)\<close>: a node is given to its visitor when it is
  entered, then its child nodes are traversed in order. \<open>trav\<close> traverses a node,
  \<open>travList\<close> a list of child nodes, \<open>travStmts\<close> the statement list of a program or
  a block, where the \<^verbatim>\<open>VariableDeclaration\<close> visitor inserts import declarations before
  the statement and removes the statement when no declarator is left.

  A node the visitor replaced is visited again and its children are not traversed in
  the first visit; the replacement is a call \<^verbatim>\<open>page.NAME('...')\<close>, below which no visitor
  finds a node, so the second visit is that of the \<^verbatim>\<open>CallExpression\<close> visitor alone.
  The import declarations a visitor inserts or rewrites name \<^verbatim>\<open>@playwright/test\<close> and
  hold identifiers only: visiting them changes nothing. A declaration that requires
  \<^verbatim>\<open>chai\<close> outside a statement list (the head of a loop, an export) is left to Babel's
  handling of such insertions, which is not modelled.
\<close>

function trav :: "table \<Rightarrow> node \<Rightarrow> rewriteState \<Rightarrow> failure + node \<times> rewriteState"
  and travList :: "table \<Rightarrow> node list \<Rightarrow> rewriteState \<Rightarrow> failure + node list \<times> rewriteState"
  and travStmts :: "table \<Rightarrow> node list \<Rightarrow> rewriteState \<Rightarrow> failure + node list \<times> rewriteState"
where
  "trav tbl n st =
     (case n of
        CallExpression callee args \<Rightarrow>
          (case visitCallExpression tbl n st of
             Inl e \<Rightarrow> Inl e
           | Inr (n1, st1, replaced) \<Rightarrow>
               if replaced
               then (case visitCallExpression tbl n1 st1 of
                       Inl e \<Rightarrow> Inl e
                     | Inr (n2, st2, again) \<Rightarrow> Inr (n2, st2))
               else (case travList tbl (kids n1) st1 of
                       Inl e \<Rightarrow> Inl e
                     | Inr (ks, st2) \<Rightarrow> Inr (withKids n1 ks, st2)))
      | ImportDeclaration specs source \<Rightarrow> Inr (visitImportDeclaration n st)
      | VariableDeclaration decls \<Rightarrow>
          (case requireLoop 0 decls [] st of
             (decls', inserted, st') \<Rightarrow>
               if inserted \<noteq> [] then Inl NotModelled
               else (case travList tbl decls st of
                       Inl e \<Rightarrow> Inl e
                     | Inr (ks, st2) \<Rightarrow> Inr (VariableDeclaration ks, st2)))
      | Program body \<Rightarrow>
          (case travStmts tbl body st of
             Inl e \<Rightarrow> Inl e
           | Inr (body', st') \<Rightarrow> Inr (Program body', st'))
      | BlockStatement body \<Rightarrow>
          (case travStmts tbl body st of
             Inl e \<Rightarrow> Inl e
           | Inr (body', st') \<Rightarrow> Inr (BlockStatement body', st'))
      | _ \<Rightarrow>
          (case travList tbl (kids n) st of
             Inl e \<Rightarrow> Inl e
           | Inr (ks, st') \<Rightarrow> Inr (withKids n ks, st')))"
| "travList tbl ns st =
     (case ns of
        [] \<Rightarrow> Inr ([], st)
      | n # rest \<Rightarrow>
          (case trav tbl n st of
             Inl e \<Rightarrow> Inl e
           | Inr (n', st1) \<Rightarrow>
               (case travList tbl rest st1 of
                  Inl e \<Rightarrow> Inl e
                | Inr (rest', st2) \<Rightarrow> Inr (n' # rest', st2))))"
| "travStmts tbl ss st =
     (case ss of
        [] \<Rightarrow> Inr ([], st)
      | s # rest \<Rightarrow>
          (case s of
             VariableDeclaration decls \<Rightarrow>
               (case requireLoop 0 decls [] st of
                  (decls', inserted, st1) \<Rightarrow>
                    (case (if inserted \<noteq> [] \<and> decls' = [] then Inr ([], st1)
                           else (case travList tbl decls' st1 of
                                   Inl e \<Rightarrow> Inl e
                                 | Inr (ks, st2) \<Rightarrow> Inr ([VariableDeclaration ks], st2))) of
                       Inl e \<Rightarrow> Inl e
                     | Inr (kept, st2) \<Rightarrow>
                         (case travStmts tbl rest st2 of
                            Inl e \<Rightarrow> Inl e
                          | Inr (rest', st3) \<Rightarrow> Inr (inserted @ kept @ rest', st3))))
           | _ \<Rightarrow>
               (case trav tbl s st of
                  Inl e \<Rightarrow> Inl e
                | Inr (s', st1) \<Rightarrow>
                    (case travStmts tbl rest st1 of
                       Inl e \<Rightarrow> Inl e
                     | Inr (rest', st2) \<Rightarrow> Inr (s' # rest', st2)))))"
  by pat_completeness auto
termination
  apply (relation "inv_image (less_than <*lex*> less_than)
     (\<lambda>x. case x of
        Inl (tbl, n, st) \<Rightarrow> (calls n, 2 * weight n)
      | Inr (Inl (tbl, ns, st)) \<Rightarrow> (sum_list (map calls ns), 2 * sum_list (map weight ns) + 1)
      | Inr (Inr (tbl, ns, st)) \<Rightarrow> (sum_list (map calls ns), 2 * sum_list (map weight ns) + 1))")
  apply (simp_all del: sum_list_eq_0_iff)
  apply (auto simp del: sum_list_eq_0_iff simp: weight_pos dest: visit_calls)
  apply (drule requireLoop_measures, linarith)+
  done

declare trav.simps [simp del]
declare travList.simps [simp del]
declare travStmts.simps [simp del]

subsection \<open>After the traversal\<close>

text \<open>\<^verbatim>\<open>s.local?.name\<close> of an import specifier.\<close>

fun localName :: "node \<Rightarrow> jsvalue" where
  "localName (ImportSpecifier local imported) = nameOf local"
| "localName (ImportDefaultSpecifier local) = nameOf local"
| "localName (ImportNamespaceSpecifier local) = nameOf local"
| "localName n = None"

definition addPageSpecifier :: "node \<Rightarrow> node" where
  "addPageSpecifier n =
     (case n of
        ImportDeclaration specs source \<Rightarrow>
          if source = ''@playwright/test''
             \<and> \<not> list_ex (\<lambda>s. localName s = Some (JStr ''Page'')) specs
          then ImportDeclaration (specs @ [ImportSpecifier (Id ''Page'') (Id ''Page'')]) source
          else n
      | _ \<Rightarrow> n)"

text \<open>
  The traversal of the program, the import added at the top when no visitor set
  \<^verbatim>\<open>hasPlaywrightImport\<close>, and the \<^verbatim>\<open>Page\<close> specifier for TypeScript output: the body of
  the program that is then printed, and the state.
\<close>

definition rewriteAst :: "table \<Rightarrow> node list \<Rightarrow> bool \<Rightarrow> failure + node list \<times> rewriteState" where
  "rewriteAst tbl body isTypeScript =
     (case travStmts tbl body initialState of
        Inl e \<Rightarrow> Inl e
      | Inr (body1, st1) \<Rightarrow>
          (case (if \<not> hasPlaywrightImport st1
                 then (playwrightImport # body1, pushChange ''Added @playwright/test import'' st1)
                 else (body1, st1)) of
             (body2, st2) \<Rightarrow>
               if isTypeScript
               then Inr (map addPageSpecifier body2,
                         pushChange ''Added Page type import for TypeScript'' st2)
               else Inr (body2, st2)))"

text \<open>
  \<^verbatim>\<open>finalCode.replace(/\(\{\s*page\s*\}\)/g, '({ page }: { page: Page })')\<close>.
\<close>

definition pageParamAt :: "string \<Rightarrow> string option" where
  "pageParamAt s =
     (case stripPrefix ''({'' s of
        None \<Rightarrow> None
      | Some r1 \<Rightarrow>
          (case stripPrefix ''page'' (dropWhile isSpace r1) of
             None \<Rightarrow> None
           | Some r2 \<Rightarrow> stripPrefix ''})'' (dropWhile isSpace r2)))"

lemma stripPrefix_length: "stripPrefix p s = Some r \<Longrightarrow> length r \<le> length s"
  by (induction p s rule: stripPrefix.induct) (auto split: if_splits)

lemma stripPrefix_shorter: "stripPrefix (c # p) s = Some r \<Longrightarrow> length r < length s"
  by (cases s) (auto split: if_splits dest: stripPrefix_length)

lemma pageParamAt_shorter: "pageParamAt s = Some r \<Longrightarrow> length r < length s"
proof -
  assume a: "pageParamAt s = Some r"
  then obtain r1 r2 where 1: "stripPrefix ''({'' s = Some r1"
    and 2: "stripPrefix ''page'' (dropWhile isSpace r1) = Some r2"
    and 3: "stripPrefix ''})'' (dropWhile isSpace r2) = Some r"
    by (auto simp: pageParamAt_def split: option.splits)
  from 1 have "length r1 < length s" by (rule stripPrefix_shorter)
  moreover from 2 have "length r2 \<le> length (dropWhile isSpace r1)" by (rule stripPrefix_length)
  moreover from 3 have "length r \<le> length (dropWhile isSpace r2)" by (rule stripPrefix_length)
  moreover have "length (dropWhile isSpace r1) \<le> length r1" "length (dropWhile isSpace r2) \<le> length r2"
    by (rule length_dropWhile_le)+
  ultimately show ?thesis by linarith
qed

function annotatePageParams :: "string \<Rightarrow> string" where
  "annotatePageParams s =
     (case pageParamAt s of
        Some rest \<Rightarrow> ''({ page }: { page: Page })'' @ annotatePageParams rest
      | None \<Rightarrow> (case s of [] \<Rightarrow> [] | c # cs \<Rightarrow> c # annotatePageParams cs))"
  by pat_completeness auto
termination
  by (relation "measure length") (auto dest: pageParamAt_shorter)

declare annotatePageParams.simps [simp del]

fun numbered :: "nat \<Rightarrow> string list \<Rightarrow> string list" where
  "numbered i [] = []"
| "numbered i (c # cs) = (showNat (Suc i) @ ''. '' @ c) # numbered (Suc i) cs"

definition generateMigrationNotes :: "string list \<Rightarrow> bool \<Rightarrow> string list" where
  "generateMigrationNotes changeList isTypeScript =
     [''Migration completed with the following transformations:'', '''']
     @ numbered 0 changeList
     @ ['''',
        ''Manual review recommended for:'',
        ''- Custom assertions that may need adjustment'',
        ''- Complex selectors that could use better Playwright locators'',
        ''- Async/await patterns'',
        ''- Explicit waits (Playwright auto-waits)'']
     @ (if isTypeScript
        then [''- TypeScript type definitions'', ''- Generic type parameters if needed'']
        else [])"

record migrationResult =
  code :: string
  notes' :: "string list"
  changes :: "string list"
  tags :: "string list"

text \<open>
  \<open>performAstMigration\<close>. The Babel parser and printer are parameters, as the scope
  crawl of the traversal is: \<open>parseCode\<close> yields the body of the program of a text, or
  the message of the failure it raises; \<open>generate\<close> prints a tree, or raises. The
  program is crawled once, by the traversal of \<open>detectFramework\<close>; the traversal of the
  rewrite finds the scopes of the same program already built. The command table is the
  shared \<^verbatim>\<open>COMMAND_MAPPINGS\<close> object, which the migration reads. The parameter
  \<open>analysis\<close> is never read.
\<close>

definition performAstMigration ::
  "(string \<Rightarrow> string + node list) \<Rightarrow> scopeCrawl \<Rightarrow> (node \<Rightarrow> failure + string) \<Rightarrow> table
   \<Rightarrow> string \<Rightarrow> jsvalue \<Rightarrow> bool \<Rightarrow> failure + migrationResult" where
  "performAstMigration parseCode crawl generate tbl testContent analysis isTypeScript =
     (case parseCode testContent of
        Inl message \<Rightarrow> Inl (ParseFailure message)
      | Inr body \<Rightarrow>
          (case detectFramework crawl (Program body) of
             Inl e \<Rightarrow> Inl e
           | Inr framework \<Rightarrow>
               if isPlaywright framework
               then Inr \<lparr>code = testContent,
                         notes' = [''File is already using Playwright syntax''],
                         changes = [], tags = []\<rparr>
               else (case rewriteAst tbl body isTypeScript of
                       Inl e \<Rightarrow> Inl e
                     | Inr (body', st) \<Rightarrow>
                         (case generate (Program body') of
                            Inl e \<Rightarrow> Inl e
                          | Inr output \<Rightarrow>
                              (case (if isTypeScript
                                     then (annotatePageParams output,
                                           pushChange ''Added TypeScript type annotations'' st)
                                     else (output, st)) of
                                 (finalCode, st') \<Rightarrow>
                                   Inr \<lparr>code = finalCode,
                                        notes' = generateMigrationNotes (rewriteState.changes st')
                                                   isTypeScript,
                                        changes = rewriteState.changes st',
                                        tags = migratedTags st'\<rparr>)))))"

text \<open>
  Two node kinds with no rule of their own, written as \<open>Other\<close> nodes: an expression
  statement and an \<^verbatim>\<open>await\<close> expression.
\<close>

definition ExpressionStatement :: "node \<Rightarrow> node" where
  "ExpressionStatement e = Other ''ExpressionStatement'' [e]"

definition AwaitExpression :: "node \<Rightarrow> node" where
  "AwaitExpression e = Other ''AwaitExpression'' [e]"

text \<open>
  Two sample texts for the early return of \<open>performAstMigration\<close>, with the programs the
  parser reads from them. The first is a Playwright test. The second declares the
  constant \<^verbatim>\<open>a\<close> twice: the parser, recovering, returns its program, and the scope crawl
  raises on it. The sample parser and the sample crawl know these two texts.
\<close>

definition playwrightText :: string where
  "playwrightText =
     ''import { test, expect } from \"@playwright/test\"; test(\"opens\", ({ page }) => {});''"

definition playwrightAst :: "node list" where
  "playwrightAst =
     [playwrightImport,
      ExpressionStatement
        (CallExpression (Id ''test'')
           [StringLiteral ''opens'', ArrowFunctionExpression [pageParam] (BlockStatement [])])]"

definition duplicateText :: string where
  "duplicateText = ''import { test } from \"@playwright/test\"; const a = 1; const a = 2;''"

definition duplicateAst :: "node list" where
  "duplicateAst =
     [ImportDeclaration [ImportSpecifier (Id ''test'') (Id ''test'')] ''@playwright/test'',
      VariableDeclaration [VariableDeclarator (Id ''a'') (Other ''NumericLiteral'' [])],
      VariableDeclaration [VariableDeclarator (Id ''a'') (Other ''NumericLiteral'' [])]]"

definition parseSample :: "string \<Rightarrow> string + node list" where
  "parseSample text =
     (if text = playwrightText then Inr playwrightAst
      else if text = duplicateText then Inr duplicateAst
      else Inl ''Unexpected token'')"

definition crawlSample :: scopeCrawl where
  "crawlSample ast = (if ast = Program duplicateAst then Some TypeError else None)"

section \<open>Page-object synthesizer (src/transformers/pom.js)\<close>

text \<open>
  What \<open>extractPageInfo\<close> collects. A locator has its \<^verbatim>\<open>method\<close> and either the
  \<^verbatim>\<open>selector\<close> (a string-literal argument) or the \<^verbatim>\<open>options\<close> (an object-expression
  argument). Source locations are not part of the model, so an action is its name and
  the assertions are counted.
\<close>

record locator =
  method' :: string
  selector :: "string option"
  options :: "node option"

record pageInfo =
  urls :: "string list"
  locators :: "locator list"
  actions :: "string list"
  assertions :: nat

definition emptyPageInfo :: pageInfo where
  "emptyPageInfo = \<lparr>urls = [], locators = [], actions = [], assertions = 0\<rparr>"

text \<open>The four tests of the \<^verbatim>\<open>CallExpression\<close> visitor, each with what it pushes.\<close>

definition gotoUrlAt :: "node \<Rightarrow> node list \<Rightarrow> string list" where
  "gotoUrlAt callee args =
     (case callee of
        MemberExpression obj prop computed \<Rightarrow>
          if isIdentifierNamed prop ''goto''
          then (case nodeAt args 0 of StringLiteral v \<Rightarrow> [v] | _ \<Rightarrow> [])
          else []
      | _ \<Rightarrow> [])"

text \<open>
  \<^verbatim>\<open>method === 'locator' || method?.startsWith('getBy')\<close>: a name that is neither a
  string nor \<^verbatim>\<open>undefined\<close> nor \<^verbatim>\<open>null\<close> has no \<^verbatim>\<open>startsWith\<close>, and the call raises a
  TypeError.
\<close>

definition locatorAt :: "node \<Rightarrow> node list \<Rightarrow> failure + locator list" where
  "locatorAt callee args =
     (case callee of
        MemberExpression obj prop computed \<Rightarrow>
          if isIdentifierNamed obj ''page''
          then (case nameOf prop of
                  None \<Rightarrow> Inr []
                | Some JNull \<Rightarrow> Inr []
                | Some (JStr m) \<Rightarrow>
                    if m = ''locator'' \<or> startsWith m ''getBy''
                    then (case nodeAt args 0 of
                            StringLiteral v \<Rightarrow>
                              Inr [\<lparr>method' = m, selector = Some v, options = None\<rparr>]
                          | ObjectExpression props \<Rightarrow>
                              Inr [\<lparr>method' = m, selector = None,
                                    options = Some (ObjectExpression props)\<rparr>]
                          | _ \<Rightarrow> Inr [])
                    else Inr []
                | Some _ \<Rightarrow> Inl TypeError)
          else Inr []
      | _ \<Rightarrow> Inr [])"

definition actionMethods :: "string list" where
  "actionMethods =
     [''click'', ''fill'', ''type'', ''check'', ''uncheck'', ''selectOption'', ''hover'', ''focus'']"

definition actionAt :: "node \<Rightarrow> string list" where
  "actionAt callee =
     (case callee of
        MemberExpression obj prop computed \<Rightarrow>
          (case prop of
             Identifier v \<Rightarrow>
               (case v of
                  Some (JStr a) \<Rightarrow> if a \<in> set actionMethods then [a] else []
                | _ \<Rightarrow> [])
           | _ \<Rightarrow> [])
      | _ \<Rightarrow> [])"

definition assertionAt :: "node \<Rightarrow> nat" where
  "assertionAt callee = (if isIdentifierNamed callee ''expect'' then 1 else 0)"

text \<open>
  The traversal: the visitor at every node, in the order the nodes are entered. The
  scope crawl that precedes the visitors (see \<open>detectFramework\<close>) is not part of this
  definition, which describes the runs whose crawl succeeds.
\<close>

fun collectPageInfo :: "node list \<Rightarrow> pageInfo \<Rightarrow> failure + pageInfo" where
  "collectPageInfo [] info = Inr info"
| "collectPageInfo (n # ns) info =
     (case n of
        CallExpression callee args \<Rightarrow>
          (case locatorAt callee args of
             Inl e \<Rightarrow> Inl e
           | Inr found \<Rightarrow>
               collectPageInfo ns
                 \<lparr>urls = urls info @ gotoUrlAt callee args,
                  locators = locators info @ found,
                  actions = actions info @ actionAt callee,
                  assertions = assertions info + assertionAt callee\<rparr>)
      | _ \<Rightarrow> collectPageInfo ns info)"

definition extractPageInfo ::
  "(string \<Rightarrow> string + node list) \<Rightarrow> string \<Rightarrow> failure + pageInfo" where
  "extractPageInfo parseCode testContent =
     (case parseCode testContent of
        Inl message \<Rightarrow> Inl (ParseFailure message)
      | Inr body \<Rightarrow> collectPageInfo (allNodes (Program body)) emptyPageInfo)"

subsection \<open>Names of the locators\<close>

text \<open>
  The four patterns of \<open>generateLocatorName\<close>, each anchored at the head of the text, with
  the capture group of the match:
  \<^verbatim>\<open>/data-test-id=['"]?([^'">\s]+)/\<close>, \<^verbatim>\<open>/^#([\w-]+)/\<close>, \<^verbatim>\<open>/aria-label=['"]([^'"]+)/\<close> and
  \<^verbatim>\<open>/^\.([\w-]+)/\<close>. Every run is greedy and nothing follows it, so it is the maximal
  one. In the first pattern a quote after the equals sign is always taken: without it
  the run would start at the quote and be empty.
\<close>

definition isTestIdChar :: "char \<Rightarrow> bool" where
  "isTestIdChar c = (\<not> isQuote c \<and> c \<noteq> CHR ''>'' \<and> \<not> isSpace c)"

definition isNameChar :: "char \<Rightarrow> bool" where
  "isNameChar c = (isWordChar c \<or> c = CHR ''-'')"

definition nonEmpty :: "string \<Rightarrow> string option" where
  "nonEmpty s = (if s = [] then None else Some s)"

definition testIdAt :: "string \<Rightarrow> string option" where
  "testIdAt s =
     (case stripPrefix ''data-test-id='' s of
        None \<Rightarrow> None
      | Some r \<Rightarrow>
          (case r of
             [] \<Rightarrow> None
           | q # r1 \<Rightarrow>
               if isQuote q then nonEmpty (takeWhile isTestIdChar r1)
               else nonEmpty (takeWhile isTestIdChar r)))"

definition idAt :: "string \<Rightarrow> string option" where
  "idAt s =
     (case s of
        [] \<Rightarrow> None
      | c # cs \<Rightarrow> if c = CHR ''#'' then nonEmpty (takeWhile isNameChar cs) else None)"

definition labelAt :: "string \<Rightarrow> string option" where
  "labelAt s =
     (case stripPrefix ''aria-label='' s of
        None \<Rightarrow> None
      | Some r \<Rightarrow>
          (case r of
             [] \<Rightarrow> None
           | q # r1 \<Rightarrow>
               if isQuote q then nonEmpty (takeWhile (\<lambda>c. \<not> isQuote c) r1) else None))"

definition classAt :: "string \<Rightarrow> string option" where
  "classAt s =
     (case s of
        [] \<Rightarrow> None
      | c # cs \<Rightarrow> if c = CHR ''.'' then nonEmpty (takeWhile isNameChar cs) else None)"

text \<open>
  \<open>toCamelCase\<close>. The first replacement, \<^verbatim>\<open>/[-_\s]+(.)?/g\<close>, removes every run of
  separators and puts the character after the run, when it is not a line terminator, in
  upper case; the second, \<^verbatim>\<open>/^./\<close>, puts the first character in lower case. Case mapping
  is that of the ASCII letters: the model is that of the source for ASCII names.
\<close>

definition isSeparator :: "char \<Rightarrow> bool" where
  "isSeparator c = (c = CHR ''-'' \<or> c = CHR ''_'' \<or> isSpace c)"

function upperAfterSeparators :: "string \<Rightarrow> string" where
  "upperAfterSeparators [] = []"
| "upperAfterSeparators (c # cs) =
     (if isSeparator c
      then (case dropWhile isSeparator cs of
              [] \<Rightarrow> []
            | d # ds \<Rightarrow>
                if isLineTerminator d then upperAfterSeparators (d # ds)
                else toUpperChar d # upperAfterSeparators ds)
      else c # upperAfterSeparators cs)"
  by pat_completeness auto
termination
proof (relation "measure length", goal_cases)
  case 1
  show ?case by simp
next
  case (2 c cs d ds)
  have "length (dropWhile isSeparator cs) \<le> length cs"
    by (rule length_dropWhile_le)
  with 2 show ?case by simp
next
  case (3 c cs d ds)
  have "length (dropWhile isSeparator cs) \<le> length cs"
    by (rule length_dropWhile_le)
  with 3 show ?case by simp
next
  case 4
  then show ?case by simp
qed

definition lowerFirst :: "string \<Rightarrow> string" where
  "lowerFirst s =
     (case s of
        [] \<Rightarrow> []
      | c # cs \<Rightarrow> if isLineTerminator c then s else toLowerChar c # cs)"

definition toCamelCase :: "string \<Rightarrow> string" where
  "toCamelCase str = lowerFirst (upperAfterSeparators str)"

definition generateLocatorName :: "locator \<Rightarrow> nat \<Rightarrow> string" where
  "generateLocatorName loc index =
     (case selector loc of
        None \<Rightarrow> ''element'' @ showNat (index + 1)
      | Some sel \<Rightarrow>
          if sel = [] then ''element'' @ showNat (index + 1)
          else (case searchFirst testIdAt sel of
                  Some testId \<Rightarrow> toCamelCase testId
                | None \<Rightarrow>
                    (case idAt sel of
                       Some ident \<Rightarrow> toCamelCase ident
                     | None \<Rightarrow>
                         (case searchFirst labelAt sel of
                            Some label \<Rightarrow> toCamelCase label @ ''Element''
                          | None \<Rightarrow>
                              (case classAt sel of
                                 Some cls \<Rightarrow> toCamelCase cls
                               | None \<Rightarrow> ''element'' @ showNat (index + 1))))))"

subsection \<open>The class text\<close>

text \<open>A template prints a selector that is \<^verbatim>\<open>undefined\<close> as the word.\<close>

definition selectorText :: "locator \<Rightarrow> string" where
  "selectorText loc = (case selector loc of Some v \<Rightarrow> v | None \<Rightarrow> ''undefined'')"

definition assignment :: "string \<Rightarrow> string \<Rightarrow> string \<Rightarrow> string" where
  "assignment varName factory sel =
     ''    this.'' @ varName @ '' = page.'' @ factory @ ''('' @ [CHR 0x27] @ sel @ [CHR 0x27] @ '');''"

definition locatorDef :: "locator \<Rightarrow> nat \<Rightarrow> string" where
  "locatorDef loc index =
     (if method' loc = ''locator''
      then assignment (generateLocatorName loc index) ''locator'' (selectorText loc)
      else if method' loc = ''getByTestId''
      then assignment (generateLocatorName loc index) ''getByTestId'' (selectorText loc)
      else if method' loc = ''getByRole''
      then assignment (generateLocatorName loc index) ''getByRole'' (selectorText loc)
      else if method' loc = ''getByLabel''
      then assignment (generateLocatorName loc index) ''getByLabel'' (selectorText loc)
      else if method' loc = ''getByPlaceholder''
      then assignment (generateLocatorName loc index) ''getByPlaceholder'' (selectorText loc)
      else if method' loc = ''getByText''
      then assignment (generateLocatorName loc index) ''getByText'' (selectorText loc)
      else assignment (generateLocatorName loc index) (method' loc) (selectorText loc))"

fun locatorDefs :: "nat \<Rightarrow> locator list \<Rightarrow> string list" where
  "locatorDefs index [] = []"
| "locatorDefs index (loc # locs) = locatorDef loc index # locatorDefs (Suc index) locs"

text \<open>\<^verbatim>\<open>pageInfo.urls[0] || '/'\<close>: an empty first url is falsy.\<close>

definition gotoUrl :: "pageInfo \<Rightarrow> string" where
  "gotoUrl info = (case urls info of [] \<Rightarrow> ''/'' | u # us \<Rightarrow> if u = [] then ''/'' else u)"

definition generatePageObjectClass :: "string \<Rightarrow> pageInfo \<Rightarrow> string" where
  "generatePageObjectClass pageName info =
     join [CHR 0x0A]
       [''export class '' @ pageName @ '' {'',
        ''  constructor(page) {'',
        ''    this.page = page;'',
        join [CHR 0x0A] (locatorDefs 0 (locators info)),
        ''  }'',
        '''',
        ''  async goto() {'',
        ''    await this.page.goto('' @ [CHR 0x27] @ gotoUrl info @ [CHR 0x27] @ '');'',
        ''  }'',
        ''}'',
        '''']"

subsection \<open>The class name\<close>

text \<open>
  \<^verbatim>\<open>.replace(/.*\//, '')\<close>: the dot stops at a line terminator, so the match is in the
  first line that has a slash, from the start of the line to its last slash.
\<close>

function stripDirectories :: "string \<Rightarrow> string" where
  "stripDirectories s =
     (if CHR ''/'' \<in> set (takeWhile (\<lambda>c. \<not> isLineTerminator c) s)
      then rev (takeWhile (\<lambda>c. c \<noteq> CHR ''/'') (rev (takeWhile (\<lambda>c. \<not> isLineTerminator c) s)))
           @ dropWhile (\<lambda>c. \<not> isLineTerminator c) s
      else (case dropWhile (\<lambda>c. \<not> isLineTerminator c) s of
              [] \<Rightarrow> s
            | terminator # rest \<Rightarrow>
                takeWhile (\<lambda>c. \<not> isLineTerminator c) s @ terminator # stripDirectories rest))"
  by pat_completeness auto
termination
proof (relation "measure length", goal_cases)
  case 1
  show ?case by simp
next
  case (2 s terminator rest)
  have "length (dropWhile (\<lambda>c. \<not> isLineTerminator c) s) \<le> length s"
    by (rule length_dropWhile_le)
  with 2 show ?case by simp
qed

declare stripDirectories.simps [simp del]

text \<open>\<^verbatim>\<open>.replace(/\.(spec|test)\.(js|ts)$/, '')\<close>: each of the four endings has eight characters.\<close>

definition stripTestSuffix :: "string \<Rightarrow> string" where
  "stripTestSuffix s =
     (if endsWith s ''.spec.js'' \<or> endsWith s ''.spec.ts''
         \<or> endsWith s ''.test.js'' \<or> endsWith s ''.test.ts''
      then take (length s - 8) s else s)"

text \<open>\<^verbatim>\<open>s.split(' ')\<close>.\<close>

fun splitSpaces :: "string \<Rightarrow> string list" where
  "splitSpaces [] = [[]]"
| "splitSpaces (c # cs) =
     (if c = CHR '' '' then [] # splitSpaces cs
      else (case splitSpaces cs of [] \<Rightarrow> [[c]] | w # ws \<Rightarrow> (c # w) # ws))"

definition capitalise :: "string \<Rightarrow> string" where
  "capitalise word = (case word of [] \<Rightarrow> [] | c # cs \<Rightarrow> toUpperChar c # cs)"

definition generatePageName :: "string \<Rightarrow> string" where
  "generatePageName filePath =
     concat (map capitalise
               (splitSpaces
                  (map (\<lambda>c. if c = CHR ''-'' \<or> c = CHR ''_'' then CHR '' '' else c)
                     (stripTestSuffix (stripDirectories filePath)))))
     @ ''Page''"

subsection \<open>refactorToPom\<close>

record pageObject =
  className :: string
  fileName :: string
  content :: string

record pomResult =
  pageObject :: pageObject
  pageInfo :: pageInfo

definition refactorToPom ::
  "(string \<Rightarrow> string + node list) \<Rightarrow> string \<Rightarrow> string \<Rightarrow> failure + pomResult" where
  "refactorToPom parseCode testContent filePath =
     (case extractPageInfo parseCode testContent of
        Inl e \<Rightarrow> Inl e
      | Inr info \<Rightarrow>
          Inr \<lparr>pageObject =
                 \<lparr>className = generatePageName filePath,
                  fileName = generatePageName filePath @ ''.js'',
                  content = generatePageObjectClass (generatePageName filePath) info\<rparr>,
               pageInfo = info\<rparr>)"

text \<open>
  Two sample tests for a login page, as the parser reads them. Both open \<^verbatim>\<open>/login\<close>
  and click the element whose test id is \<^verbatim>\<open>submit-button\<close>: the first finds it with
  \<^verbatim>\<open>page.getByTestId('submit-button')\<close>, the second with
  \<^verbatim>\<open>page.locator("[data-test-id='submit-button']")\<close>.
\<close>

definition loginTest :: "node \<Rightarrow> node list" where
  "loginTest submit =
     [playwrightImport,
      ExpressionStatement
        (CallExpression (Id ''test'')
           [StringLiteral ''logs in'',
            ArrowFunctionExpression [pageParam]
              (BlockStatement
                 [ExpressionStatement
                    (AwaitExpression
                       (CallExpression (MemberExpression (Id ''page'') (Id ''goto'') False)
                          [StringLiteral ''/login''])),
                  ExpressionStatement
                    (AwaitExpression
                       (CallExpression (MemberExpression submit (Id ''click'') False) []))])])]"

definition byTestId :: node where
  "byTestId =
     CallExpression (MemberExpression (Id ''page'') (Id ''getByTestId'') False)
       [StringLiteral ''submit-button'']"

definition byAttribute :: node where
  "byAttribute =
     CallExpression (MemberExpression (Id ''page'') (Id ''locator'') False)
       [StringLiteral (''[data-test-id='' @ [CHR 0x27] @ ''submit-button'' @ [CHR 0x27] @ '']'')]"

section \<open>Properties of the tag engine\<close>

lemma foldl_setAdd:
  "foldl setAdd acc xs = acc @ filter (\<lambda>y. y \<notin> set acc) (keepFirst xs)"
proof (induction xs arbitrary: acc)
  case Nil
  show ?case by simp
next
  case (Cons x xs)
  show ?case
  proof (cases "x \<in> set acc")
    case True
    then have step: "setAdd acc x = acc" by (simp add: setAdd_def)
    have "filter (\<lambda>y. y \<notin> set acc) (filter (\<lambda>y. y \<noteq> x) (keepFirst xs))
        = filter (\<lambda>y. y \<notin> set acc) (keepFirst xs)"
      unfolding filter_filter using True by (intro filter_cong) auto
    with True step Cons [of acc] show ?thesis by simp
  next
    case False
    then have step: "setAdd acc x = acc @ [x]" by (simp add: setAdd_def)
    have "filter (\<lambda>y. y \<notin> set (acc @ [x])) (keepFirst xs)
        = filter (\<lambda>y. y \<notin> set acc) (filter (\<lambda>y. y \<noteq> x) (keepFirst xs))"
      unfolding filter_filter by (intro filter_cong) auto
    with False step Cons [of "acc @ [x]"] show ?thesis by simp
  qed
qed


lemma extractTags_concat:
  "extractTagsFromString s =
     keepFirst (map toLowerCase (execAll Bracketed s) @ map toLowerCase (execAll AtPrefixed s)
       @ map toLowerCase (execAll HashPrefixed s))"
proof -
  have inner: "foldl (\<lambda>tags m. setAdd tags (toLowerCase m)) acc ms = foldl setAdd acc (map toLowerCase ms)"
    for acc ms
    by (simp add: foldl_map)
  have "extractTagsFromString s =
      foldl setAdd [] (map toLowerCase (execAll Bracketed s) @ map toLowerCase (execAll AtPrefixed s)
       @ map toLowerCase (execAll HashPrefixed s))"
    by (simp add: extractTagsFromString_def TAG_PATTERNS_def inner)
  then show ?thesis by (simp only: foldl_setAdd) simp
qed



lemma matchAt_lead: "matchAt p s = Some x \<Longrightarrow> \<exists>cs. s = leadChar p # cs"
  by (cases p; cases s) (auto simp: bracketAt_def prefixedAt_def split: if_splits)

lemma matchAt_suffix: "matchAt p s = Some (cap, rest) \<Longrightarrow> suffix rest s"
proof (cases s)
  case Nil
  assume "matchAt p s = Some (cap, rest)"
  with Nil show ?thesis by (cases p) (simp_all add: bracketAt_def prefixedAt_def)
next
  case (Cons c cs)
  assume m: "matchAt p s = Some (cap, rest)"
  show ?thesis
  proof (cases p)
    case Bracketed
    with m Cons obtain r where "dropWhile isTagChar cs = r # rest"
      by (auto simp: bracketAt_def split: if_splits list.splits)
    then have "suffix (r # rest) cs" by (metis suffix_dropWhile)
    then have "suffix rest cs" by (metis suffix_ConsD)
    with Cons show ?thesis by (simp add: suffix_ConsI)
  next
    case AtPrefixed
    with m Cons have "rest = dropWhile isWordChar cs"
      by (auto simp: prefixedAt_def split: if_splits)
    with Cons show ?thesis by (simp add: suffix_ConsI suffix_dropWhile)
  next
    case HashPrefixed
    with m Cons have "rest = dropWhile isWordChar cs"
      by (auto simp: prefixedAt_def split: if_splits)
    with Cons show ?thesis by (simp add: suffix_ConsI suffix_dropWhile)
  qed
qed

lemma execAll_Nil [simp]: "execAll p [] = []"
  by (cases p) (simp_all add: execAll.simps bracketAt_def prefixedAt_def)

lemma replaceAll_Nil [simp]: "replaceAll p [] = []"
  by (cases p) (simp_all add: replaceAll.simps bracketAt_def prefixedAt_def)

lemma execAll_no_lead: "leadChar p \<notin> set s \<Longrightarrow> execAll p s = []"
proof (induction s)
  case Nil
  show ?case by simp
next
  case (Cons c cs)
  then have "matchAt p (c # cs) = None"
    using matchAt_lead [of p "c # cs"] by (cases "matchAt p (c # cs)") auto
  with Cons show ?case by (simp add: execAll.simps [of p "c # cs"])
qed

lemma startsWord_takeWhile: "startsWord cs \<longleftrightarrow> takeWhile isWordChar cs \<noteq> []"
  by (cases cs) auto

lemma prefixedAt_None_iff:
  "prefixedAt p (c # cs) = None \<longleftrightarrow> \<not> (c = p \<and> startsWord cs)"
  by (simp add: prefixedAt_def startsWord_takeWhile)

lemma hasPair_append1: "hasPair p u \<Longrightarrow> hasPair p (u @ v)"
proof (induction u)
  case Nil then show ?case by simp
next
  case (Cons c cs)
  then show ?case by (cases cs) auto
qed

lemma hasPair_append2: "hasPair p v \<Longrightarrow> hasPair p (u @ v)"
  by (induction u) auto

lemma hasPair_suffix: "suffix v s \<Longrightarrow> hasPair p v \<Longrightarrow> hasPair p s"
  by (auto simp: suffix_def hasPair_append2)

lemma matchAt_prefixed: "prefixedPattern p \<Longrightarrow> matchAt p s = prefixedAt (leadChar p) s"
  by (cases p) auto

lemma execAll_empty_iff:
  "prefixedPattern p \<Longrightarrow> execAll p s = [] \<longleftrightarrow> \<not> hasPair (leadChar p) s"
proof (induction s)
  case Nil
  show ?case by simp
next
  case (Cons c cs)
  show ?case
  proof (cases "matchAt p (c # cs)")
    case None
    then have e: "execAll p (c # cs) = execAll p cs"
      by (simp add: execAll.simps [of p "c # cs"])
    from None Cons.prems have "\<not> (c = leadChar p \<and> startsWord cs)"
      using prefixedAt_None_iff [of "leadChar p" c cs] by (simp add: matchAt_prefixed)
    with e Cons show ?thesis by simp
  next
    case (Some x)
    with Cons.prems have "c = leadChar p \<and> startsWord cs"
      using prefixedAt_None_iff [of "leadChar p" c cs] by (simp add: matchAt_prefixed)
    moreover from Some have "execAll p (c # cs) \<noteq> []"
      by (cases x) (simp add: execAll.simps [of p "c # cs"])
    ultimately show ?thesis by simp
  qed
qed


lemma startsWord_dropWhile: "\<not> startsWord (dropWhile isWordChar cs)"
proof (cases "dropWhile isWordChar cs")
  case Nil show ?thesis unfolding Nil by simp
next
  case (Cons d ds)
  then have "\<not> isWordChar d" by (metis hd_dropWhile list.sel(1) list.distinct(1))
  with Cons show ?thesis by simp
qed

lemma replaceAll_startsWord:
  "prefixedPattern p \<Longrightarrow> \<not> startsWord s \<Longrightarrow> \<not> startsWord (replaceAll p s)"
proof (induction p s rule: replaceAll.induct)
  case (1 p s)
  show ?case
  proof (cases "matchAt p s")
    case None
    show ?thesis
    proof (cases s)
      case Nil then show ?thesis by simp
    next
      case (Cons c cs)
      with None "1.prems" show ?thesis by (simp add: replaceAll.simps [of p "c # cs"])
    qed
  next
    case (Some x)
    obtain cap rest where x: "x = (cap, rest)" by (cases x)
    from Some x "1.prems"(1) have "rest = dropWhile isWordChar (tl s)"
      by (cases s) (auto simp: matchAt_prefixed prefixedAt_def split: if_splits)
    then have "\<not> startsWord rest" by (simp add: startsWord_dropWhile)
    with "1.IH"(2) [OF Some x [symmetric]] "1.prems"(1) have "\<not> startsWord (replaceAll p rest)" by simp
    with Some x show ?thesis by (simp add: replaceAll.simps [of p s])
  qed
qed

lemma replaceAll_keeps_no_pair:
  "prefixedPattern p \<Longrightarrow> \<not> isWordChar d \<Longrightarrow> \<not> hasPair d s \<Longrightarrow> \<not> hasPair d (replaceAll p s)"
proof (induction p s rule: replaceAll.induct)
  case (1 p s)
  show ?case
  proof (cases "matchAt p s")
    case None
    show ?thesis
    proof (cases s)
      case Nil then show ?thesis by simp
    next
      case (Cons c cs)
      from Cons "1.prems" have nocs: "\<not> hasPair d cs" by simp
      from "1.IH"(1) [OF None Cons] "1.prems"(1,2) nocs have ih: "\<not> hasPair d (replaceAll p cs)" by simp
      have "\<not> (c = d \<and> startsWord (replaceAll p cs))"
      proof
        assume a: "c = d \<and> startsWord (replaceAll p cs)"
        with Cons "1.prems"(3) have "\<not> startsWord cs" by simp
        with "1.prems"(1) have "\<not> startsWord (replaceAll p cs)" by (rule replaceAll_startsWord)
        with a show False by simp
      qed
      with ih None Cons show ?thesis by (simp add: replaceAll.simps [of p "c # cs"])
    qed
  next
    case (Some x)
    obtain cap rest where x: "x = (cap, rest)" by (cases x)
    from Some x have "suffix rest s" by (simp add: matchAt_suffix)
    with "1.prems"(3) have "\<not> hasPair d rest" using hasPair_suffix by blast
    with "1.IH"(2) [OF Some x [symmetric]] "1.prems"(1,2) have "\<not> hasPair d (replaceAll p rest)" by simp
    with Some x show ?thesis by (simp add: replaceAll.simps [of p s])
  qed
qed

lemma replaceAll_no_pair:
  "prefixedPattern p \<Longrightarrow> \<not> hasPair (leadChar p) (replaceAll p s)"
proof (induction p s rule: replaceAll.induct)
  case (1 p s)
  show ?case
  proof (cases "matchAt p s")
    case None
    show ?thesis
    proof (cases s)
      case Nil then show ?thesis by simp
    next
      case (Cons c cs)
      from "1.IH"(1) [OF None Cons] "1.prems" have ih: "\<not> hasPair (leadChar p) (replaceAll p cs)" by simp
      have "\<not> (c = leadChar p \<and> startsWord (replaceAll p cs))"
      proof
        assume a: "c = leadChar p \<and> startsWord (replaceAll p cs)"
        from None Cons "1.prems" have "\<not> (c = leadChar p \<and> startsWord cs)"
          using prefixedAt_None_iff [of "leadChar p" c cs] by (simp add: matchAt_prefixed)
        with a have "\<not> startsWord cs" by simp
        with "1.prems" have "\<not> startsWord (replaceAll p cs)" by (rule replaceAll_startsWord)
        with a show False by simp
      qed
      with ih None Cons show ?thesis by (simp add: replaceAll.simps [of p "c # cs"])
    qed
  next
    case (Some x)
    obtain cap rest where x: "x = (cap, rest)" by (cases x)
    from "1.IH"(2) [OF Some x [symmetric]] "1.prems" have "\<not> hasPair (leadChar p) (replaceAll p rest)" by simp
    with Some x show ?thesis by (simp add: replaceAll.simps [of p s])
  qed
qed

lemma trim_prefix_suffix: "\<exists>u v. s = u @ trim s @ v"
proof -
  let ?t = "dropWhile isSpace s"
  have "rev (rev ?t) = rev (takeWhile isSpace (rev ?t) @ dropWhile isSpace (rev ?t))"
    by (simp only: takeWhile_dropWhile_id)
  then have "?t = rev (dropWhile isSpace (rev ?t)) @ rev (takeWhile isSpace (rev ?t))"
    by (simp only: rev_rev_ident rev_append)
  then have "?t = trim s @ rev (takeWhile isSpace (rev ?t))" by (simp only: trim_def)
  moreover have "s = takeWhile isSpace s @ ?t" by simp
  ultimately show ?thesis by metis
qed

lemma trim_keeps_no_pair: "\<not> hasPair p s \<Longrightarrow> \<not> hasPair p (trim s)"
proof -
  obtain u v where "s = u @ trim s @ v" using trim_prefix_suffix by blast
  then show "\<not> hasPair p s \<Longrightarrow> \<not> hasPair p (trim s)"
    by (metis hasPair_append1 hasPair_append2)
qed


lemma collapseSpaces_startsWord: "startsWord (collapseSpaces s) \<Longrightarrow> startsWord s"
  by (cases s) (auto simp: isWordChar_def upperChars_def lowerChars_def digitChars_def split: if_splits)

lemma collapseSpaces_keeps_no_pair:
  "\<not> isSpace p \<Longrightarrow> \<not> hasPair p s \<Longrightarrow> \<not> hasPair p (collapseSpaces s)"
proof (induction s rule: collapseSpaces.induct)
  case 1
  show ?case by simp
next
  case (2 c cs)
  show ?case
  proof (cases "isSpace c")
    case True
    have "suffix (dropWhile isSpace cs) (c # cs)" by (simp add: suffix_ConsI suffix_dropWhile)
    with "2.prems"(2) have "\<not> hasPair p (dropWhile isSpace cs)" using hasPair_suffix by blast
    with "2.IH"(1) [OF True "2.prems"(1)] have "\<not> hasPair p (collapseSpaces (dropWhile isSpace cs))" by simp
    moreover from True "2.prems"(1) have "CHR '' '' \<noteq> p \<or> c \<noteq> p" by auto
    moreover have "isSpace (CHR '' '')" by (simp add: isSpace_def)
    ultimately show ?thesis using True "2.prems"(1) by auto
  next
    case False
    from "2.prems"(2) have "\<not> hasPair p cs" by simp
    with "2.IH"(2) [OF False "2.prems"(1)] have ih: "\<not> hasPair p (collapseSpaces cs)" by simp
    have "\<not> (c = p \<and> startsWord (collapseSpaces cs))"
      using "2.prems"(2) collapseSpaces_startsWord [of cs] by auto
    with ih False show ?thesis by simp
  qed
qed


lemma removeTags_unfold:
  "removeTagsFromString T =
     collapseSpaces (trim (replaceAll HashPrefixed (replaceAll AtPrefixed (replaceAll Bracketed T))))"
  by (simp add: removeTagsFromString_def TAG_PATTERNS_def)

lemma at_not_word: "\<not> isWordChar (CHR ''@'')"
  by (simp add: isWordChar_def upperChars_def lowerChars_def digitChars_def)

lemma removeTags_no_prefixed:
  "execAll AtPrefixed (removeTagsFromString T) = [] \<and> execAll HashPrefixed (removeTagsFromString T) = []"
proof -
  let ?T1 = "replaceAll Bracketed T"
  let ?T2 = "replaceAll AtPrefixed ?T1"
  let ?T3 = "replaceAll HashPrefixed ?T2"
  have "\<not> hasPair (CHR ''@'') ?T2" using replaceAll_no_pair [of AtPrefixed ?T1] by simp
  then have "\<not> hasPair (CHR ''@'') ?T3"
    using replaceAll_keeps_no_pair [of HashPrefixed "CHR ''@''" ?T2] at_not_word by simp
  then have "\<not> hasPair (CHR ''@'') (trim ?T3)" by (rule trim_keeps_no_pair)
  then have a: "\<not> hasPair (CHR ''@'') (removeTagsFromString T)"
    unfolding removeTags_unfold by (intro collapseSpaces_keeps_no_pair) (simp_all add: isSpace_def)
  have "\<not> hasPair (CHR ''#'') ?T3" using replaceAll_no_pair [of HashPrefixed ?T2] by simp
  then have "\<not> hasPair (CHR ''#'') (trim ?T3)" by (rule trim_keeps_no_pair)
  then have h: "\<not> hasPair (CHR ''#'') (removeTagsFromString T)"
    unfolding removeTags_unfold by (intro collapseSpaces_keeps_no_pair) (simp_all add: isSpace_def)
  from a h show ?thesis
    using execAll_empty_iff [of AtPrefixed] execAll_empty_iff [of HashPrefixed] by simp
qed

lemma bracketsAreTags_suffix: "suffix v s \<Longrightarrow> bracketsAreTags s \<Longrightarrow> bracketsAreTags v"
proof (induction s)
  case Nil then show ?case by simp
next
  case (Cons c cs)
  then show ?case by (cases "v = c # cs") (auto simp: suffix_Cons)
qed

lemma replaceAll_subset: "set (replaceAll p s) \<subseteq> set s"
proof (induction p s rule: replaceAll.induct)
  case (1 p s)
  show ?case
  proof (cases "matchAt p s")
    case None
    show ?thesis
    proof (cases s)
      case Nil then show ?thesis by simp
    next
      case (Cons c cs)
      with None "1.IH"(1) [OF None Cons] show ?thesis
        by (auto simp: replaceAll.simps [of p "c # cs"])
    qed
  next
    case (Some x)
    obtain cap rest where x: "x = (cap, rest)" by (cases x)
    from Some x have "suffix rest s" by (simp add: matchAt_suffix)
    then have "set rest \<subseteq> set s" by (rule set_mono_suffix)
    with Some x "1.IH"(2) [OF Some x [symmetric]] show ?thesis
      by (auto simp: replaceAll.simps [of p s])
  qed
qed

lemma replaceAll_brackets:
  "bracketsAreTags s \<Longrightarrow> CHR ''['' \<notin> set (replaceAll Bracketed s)"
proof (induction Bracketed s rule: replaceAll.induct)
  case (1 s)
  show ?case
  proof (cases "matchAt Bracketed s")
    case None
    show ?thesis
    proof (cases s)
      case Nil then show ?thesis by simp
    next
      case (Cons c cs)
      with None "1.prems" have "c \<noteq> CHR ''[''" by auto
      moreover from Cons "1.prems" have "bracketsAreTags cs" by simp
      ultimately show ?thesis using None Cons "1.hyps"(1) [OF None Cons]
        by (simp add: replaceAll.simps [of Bracketed "c # cs"])
    qed
  next
    case (Some x)
    obtain cap rest where x: "x = (cap, rest)" by (cases x)
    from Some x have "suffix rest s" using matchAt_suffix [of Bracketed s cap rest] by simp
    with "1.prems" have "bracketsAreTags rest" by (rule bracketsAreTags_suffix [rotated])
    with Some x "1.hyps"(2) [OF Some x [symmetric]] show ?thesis
      by (simp add: replaceAll.simps [of Bracketed s])
  qed
qed

lemma trim_subset: "set (trim s) \<subseteq> set s"
proof -
  obtain u v where "s = u @ trim s @ v" using trim_prefix_suffix by blast
  then have "set s = set u \<union> set (trim s) \<union> set v" by (metis set_append Un_assoc)
  then show ?thesis by blast
qed

lemma collapseSpaces_subset: "set (collapseSpaces s) \<subseteq> insert (CHR '' '') (set s)"
proof (induction s rule: collapseSpaces.induct)
  case 1 show ?case by simp
next
  case (2 c cs)
  have "set (dropWhile isSpace cs) \<subseteq> set cs" by (rule set_dropWhileD [THEN subsetI])
  with 2 show ?case by (cases "isSpace c") auto
qed

lemma removeTags_no_bracket:
  assumes "bracketsAreTags T"
  shows "extractTagsFromString (removeTagsFromString T) = []"
proof -
  let ?T1 = "replaceAll Bracketed T"
  let ?T3 = "replaceAll HashPrefixed (replaceAll AtPrefixed ?T1)"
  from assms have "CHR ''['' \<notin> set ?T1" by (rule replaceAll_brackets)
  then have "CHR ''['' \<notin> set ?T3" using replaceAll_subset by blast
  then have "CHR ''['' \<notin> set (trim ?T3)" using trim_subset by blast
  then have "CHR ''['' \<notin> set (removeTagsFromString T)"
    unfolding removeTags_unfold using collapseSpaces_subset [of "trim ?T3"] by auto
  then have "execAll Bracketed (removeTagsFromString T) = []"
    using execAll_no_lead [of Bracketed] by simp
  with removeTags_no_prefixed [of T] show ?thesis
    by (simp add: extractTags_concat)
qed


lemma word_upper_all:
  "list_all (\<lambda>c. isTagChar (toUpperChar c) \<and> toLowerChar (toUpperChar c) = toLowerChar c)
     (upperChars @ lowerChars @ digitChars @ ''_'')"
  by code_simp

lemma word_upper:
  "isWordChar c \<Longrightarrow> isTagChar (toUpperChar c) \<and> toLowerChar (toUpperChar c) = toLowerChar c"
  using word_upper_all unfolding isWordChar_def list_all_iff by blast

lemma word_chars_all:
  "list_all (\<lambda>c. \<not> isSpace c \<and> c \<noteq> CHR ''['' \<and> c \<noteq> CHR ''@'' \<and> c \<noteq> CHR ''#'')
     (upperChars @ lowerChars @ digitChars @ ''_'')"
  by code_simp

lemma tag_chars_all:
  "list_all (\<lambda>c. c \<noteq> CHR ''['' \<and> c \<noteq> CHR ''@'' \<and> c \<noteq> CHR ''#'' \<and> c \<noteq> CHR '']'')
     (upperChars @ digitChars @ ''_-'')"
  by code_simp

lemma word_no_lead: "isWordChar c \<Longrightarrow> c \<noteq> leadChar p"
  using word_chars_all unfolding isWordChar_def list_all_iff by (cases p) auto

lemma tag_no_lead: "isTagChar c \<Longrightarrow> c \<noteq> leadChar p \<and> c \<noteq> CHR '']''"
  using tag_chars_all unfolding isTagChar_def list_all_iff by (cases p) auto

lemma execAll_prefixed_single:
  assumes "prefixedPattern p" "w \<noteq> []" "\<forall>c\<in>set w. isWordChar c"
  shows "execAll p (leadChar p # w) = [w]"
proof -
  from assms(3) have tw: "takeWhile isWordChar w = w" and dw: "dropWhile isWordChar w = []" by auto
  from assms(1,2) have "matchAt p (leadChar p # w) = Some (w, [])"
    by (simp add: matchAt_prefixed prefixedAt_def tw dw)
  then show ?thesis by (simp add: execAll.simps [of p "leadChar p # w"])
qed

lemma execAll_bracket_single:
  assumes "w \<noteq> []" "\<forall>c\<in>set w. isTagChar c"
  shows "execAll Bracketed (CHR ''['' # w @ '']'') = [w]"
proof -
  have nb: "\<not> isTagChar (CHR '']'')" by (simp add: isTagChar_def upperChars_def digitChars_def)
  from assms(2) nb have tw: "takeWhile isTagChar (w @ '']'') = w"
    and dw: "dropWhile isTagChar (w @ '']'') = '']''"
    by (simp_all add: takeWhile_append2 dropWhile_append2)
  from assms(1) have "matchAt Bracketed (CHR ''['' # w @ '']'') = Some (w, [])"
    by (simp add: bracketAt_def tw dw)
  then show ?thesis by (simp add: execAll.simps [of Bracketed "CHR ''['' # w @ '']''"])
qed

lemma three_syntaxes:
  assumes "w \<noteq> []" "\<forall>c\<in>set w. isWordChar c"
  shows "extractTagsFromString (''['' @ toUpperCase w @ '']'') = [toLowerCase w]
       \<and> extractTagsFromString (''@'' @ w) = [toLowerCase w]
       \<and> extractTagsFromString (''#'' @ w) = [toLowerCase w]"
proof -
  have at: "execAll AtPrefixed (CHR ''@'' # w) = [w]"
    using execAll_prefixed_single [of AtPrefixed w] assms by simp
  have hash: "execAll HashPrefixed (CHR ''#'' # w) = [w]"
    using execAll_prefixed_single [of HashPrefixed w] assms by simp
  have none: "leadChar p \<notin> set w" for p using assms(2) word_no_lead by blast
  have a1: "execAll Bracketed (CHR ''@'' # w) = []" "execAll HashPrefixed (CHR ''@'' # w) = []"
    using none [of Bracketed] none [of HashPrefixed] by (simp_all add: execAll_no_lead)
  have h1: "execAll Bracketed (CHR ''#'' # w) = []" "execAll AtPrefixed (CHR ''#'' # w) = []"
    using none [of Bracketed] none [of AtPrefixed] by (simp_all add: execAll_no_lead)
  have up: "\<forall>c\<in>set (toUpperCase w). isTagChar c" "toUpperCase w \<noteq> []"
    using assms word_upper by (auto simp: toUpperCase_def)
  have low: "toLowerCase (toUpperCase w) = toLowerCase w"
    using assms(2) word_upper by (simp add: toUpperCase_def toLowerCase_def)
  have br: "execAll Bracketed (CHR ''['' # toUpperCase w @ '']'') = [toUpperCase w]"
    using execAll_bracket_single up by simp
  have noneb: "leadChar p \<notin> set (toUpperCase w)" for p using up(1) tag_no_lead by blast
  have b1: "execAll AtPrefixed (CHR ''['' # toUpperCase w @ '']'') = []"
     "execAll HashPrefixed (CHR ''['' # toUpperCase w @ '']'') = []"
    using noneb [of AtPrefixed] noneb [of HashPrefixed] by (simp_all add: execAll_no_lead)
  show ?thesis
    by (simp add: extractTags_concat at hash a1 h1 br b1 low)
qed


text \<open>
  C3 (as amended). What \<open>removeTagsFromString\<close> returns never contains an at-prefixed
  or a hash-prefixed tag; when every opening square bracket of the text starts a
  bracketed tag, it contains no tag of any of the three forms. A token of word
  characters is extracted as the same lower-case token from the bracketed form (written
  in upper case, as that pattern requires), the at-prefixed form and the hash-prefixed
  form.
\<close>

theorem tags_strip_and_syntaxes:
  "execAll AtPrefixed (removeTagsFromString T) = []
   \<and> execAll HashPrefixed (removeTagsFromString T) = []
   \<and> (bracketsAreTags T \<longrightarrow> extractTagsFromString (removeTagsFromString T) = [])
   \<and> (w \<noteq> [] \<and> (\<forall>c\<in>set w. isWordChar c) \<longrightarrow>
        extractTagsFromString (''['' @ toUpperCase w @ '']'') = [toLowerCase w]
        \<and> extractTagsFromString (''@'' @ w) = [toLowerCase w]
        \<and> extractTagsFromString (''#'' @ w) = [toLowerCase w])"
  using removeTags_no_prefixed [of T] removeTags_no_bracket [of T] three_syntaxes [of w] by blast

theorem tags_strip_and_syntaxes_witness:
  "bracketsAreTags ''should login [SMOKE] @p1 #fast''
   \<and> execAll AtPrefixed (removeTagsFromString ''should login [SMOKE] @p1 #fast'') = []
   \<and> execAll HashPrefixed (removeTagsFromString ''should login [SMOKE] @p1 #fast'') = []
   \<and> extractTagsFromString (removeTagsFromString ''should login [SMOKE] @p1 #fast'') = []
   \<and> removeTagsFromString ''should login [SMOKE] @p1 #fast'' = ''should login''
   \<and> ''Smoke'' \<noteq> [] \<and> list_all isWordChar ''Smoke''
   \<and> extractTagsFromString ''[SMOKE]'' = [''smoke'']
   \<and> extractTagsFromString ''@Smoke'' = [''smoke'']
   \<and> extractTagsFromString ''#Smoke'' = [''smoke'']"
proof -
  have b: "bracketsAreTags ''should login [SMOKE] @p1 #fast''" by code_simp
  have w: "''Smoke'' \<noteq> [] \<and> (\<forall>c\<in>set ''Smoke''. isWordChar c)" by code_simp
  have w': "list_all isWordChar ''Smoke''" by code_simp
  have r: "removeTagsFromString ''should login [SMOKE] @p1 #fast'' = ''should login''" by code_simp
  have u: "toUpperCase ''Smoke'' = ''SMOKE''" "toLowerCase ''Smoke'' = ''smoke''" by code_simp+
  show ?thesis
    using tags_strip_and_syntaxes [of "''should login [SMOKE] @p1 #fast''" "''Smoke''"] b w w' r u
    by simp
qed

text \<open>
  C3 as stated fails. In \<^verbatim>\<open>"[[A]A]"\<close> the bracketed pattern matches \<^verbatim>\<open>[A]\<close>; removing it
  joins the remaining text into \<^verbatim>\<open>[A]\<close> again, so the stripped text contains the original
  tag. The token \<^verbatim>\<open>p-1\<close> of the bracketed tag \<^verbatim>\<open>[P-1]\<close> is not what the at-prefixed and
  hash-prefixed forms yield: there the hyphen ends the token.
\<close>

theorem tags_roundtrip_counterexample:
  "execAll Bracketed ''[[A]A]'' = [''A'']
   \<and> removeTagsFromString ''[[A]A]'' = ''[A]''
   \<and> extractTagsFromString ''[P-1]'' = [''p-1'']
   \<and> extractTagsFromString ''@P-1'' = [''p'']
   \<and> extractTagsFromString ''#P-1'' = [''p'']"
  by code_simp

section \<open>Properties of the selector classifier\<close>

text \<open>
  C2. The six cases of \<open>transformSelector\<close> are tried in the order test-identification
  attribute, aria-label attribute, role attribute, placeholder attribute, button or link
  tag, css fallback, and the first case that matches decides the result, whatever later
  cases match as well. The selector \<^verbatim>\<open>[data-test-id='submit-button']\<close> is classified
  \<^verbatim>\<open>testId\<close>, with the locator expression \<^verbatim>\<open>page.getByTestId('submit-button')\<close>.
\<close>

theorem transformSelector_priority:
  "(matchDataTestId s = Some v \<longrightarrow>
      transformSelector s =
        \<lparr>selectorTransform.code = ''page.getByTestId('' @ [CHR 0x27] @ v @ [CHR 0x27] @ '')'',
         type = ''testId'', original = s, note' = None, suggestion = None\<rparr>)
   \<and> (matchDataTestId s = None \<and> matchAriaLabel s = Some v \<longrightarrow>
      transformSelector s =
        \<lparr>selectorTransform.code = ''page.getByLabel('' @ [CHR 0x27] @ v @ [CHR 0x27] @ '')'',
         type = ''label'', original = s, note' = None, suggestion = None\<rparr>)
   \<and> (matchDataTestId s = None \<and> matchAriaLabel s = None \<and> matchRole s = Some v \<longrightarrow>
      transformSelector s =
        \<lparr>selectorTransform.code = ''page.getByRole('' @ [CHR 0x27] @ v @ [CHR 0x27] @ '')'',
         type = ''role'', original = s, note' = None, suggestion = None\<rparr>)
   \<and> (matchDataTestId s = None \<and> matchAriaLabel s = None \<and> matchRole s = None
        \<and> matchPlaceholder s = Some v \<longrightarrow>
      transformSelector s =
        \<lparr>selectorTransform.code = ''page.getByPlaceholder('' @ [CHR 0x27] @ v @ [CHR 0x27] @ '')'',
         type = ''placeholder'', original = s, note' = None, suggestion = None\<rparr>)
   \<and> (matchDataTestId s = None \<and> matchAriaLabel s = None \<and> matchRole s = None
        \<and> matchPlaceholder s = None \<and> (matchTagWithAttrs s \<or> matchBareTag s) \<longrightarrow>
      type (transformSelector s) = ''role''
      \<and> selectorTransform.code (transformSelector s) \<in> {''page.getByRole('button')'', ''page.getByRole('link')''}
      \<and> note' (transformSelector s) = Some ''Consider adding { name: \"...\" } for specificity'')
   \<and> (matchDataTestId s = None \<and> matchAriaLabel s = None \<and> matchRole s = None
        \<and> matchPlaceholder s = None \<and> \<not> matchTagWithAttrs s \<and> \<not> matchBareTag s \<longrightarrow>
      transformSelector s =
        \<lparr>selectorTransform.code = ''page.locator('' @ [CHR 0x27] @ s @ [CHR 0x27] @ '')'',
         type = ''css'', original = s, note' = None,
         suggestion = Some ''Consider using data-test-id for more reliable selectors''\<rparr>)
   \<and> transformSelector ''[data-test-id='submit-button']'' =
        \<lparr>selectorTransform.code = ''page.getByTestId('submit-button')'',
         type = ''testId'', original = ''[data-test-id='submit-button']'',
         note' = None, suggestion = None\<rparr>"
proof -
  have ex: "matchDataTestId ''[data-test-id='submit-button']'' = Some ''submit-button''"
    by code_simp
  show ?thesis
    by (simp add: transformSelector_def ex)
qed

text \<open>
  Selectors that match several cases at once: an aria-label attribute written before a
  test-identification attribute on a button tag is classified \<^verbatim>\<open>testId\<close>; a placeholder
  attribute written before a role attribute is classified \<^verbatim>\<open>role\<close>.
\<close>

theorem transformSelector_priority_witness:
  "matchDataTestId ''button[aria-label='Go'][data-test-id='submit-button']'' = Some ''submit-button''
   \<and> matchAriaLabel ''button[aria-label='Go'][data-test-id='submit-button']'' = Some ''Go''
   \<and> matchTagWithAttrs ''button[aria-label='Go'][data-test-id='submit-button']''
   \<and> type (transformSelector ''button[aria-label='Go'][data-test-id='submit-button']'') = ''testId''
   \<and> selectorTransform.code (transformSelector ''button[aria-label='Go'][data-test-id='submit-button']'')
       = ''page.getByTestId('submit-button')''
   \<and> matchDataTestId ''[placeholder='Name'][role='textbox']'' = None
   \<and> matchAriaLabel ''[placeholder='Name'][role='textbox']'' = None
   \<and> matchRole ''[placeholder='Name'][role='textbox']'' = Some ''textbox''
   \<and> matchPlaceholder ''[placeholder='Name'][role='textbox']'' = Some ''Name''
   \<and> selectorTransform.code (transformSelector ''[placeholder='Name'][role='textbox']'') = ''page.getByRole('textbox')''"
proof -
  let ?s = "''button[aria-label='Go'][data-test-id='submit-button']''"
  let ?t = "''[placeholder='Name'][role='textbox']''"
  have a: "matchDataTestId ?s = Some ''submit-button''" by code_simp
  have b: "matchAriaLabel ?s = Some ''Go''" by code_simp
  have c: "matchTagWithAttrs ?s" by code_simp
  have d: "matchDataTestId ?t = None" by code_simp
  have e: "matchAriaLabel ?t = None" by code_simp
  have f: "matchRole ?t = Some ''textbox''" by code_simp
  have g: "matchPlaceholder ?t = Some ''Name''" by code_simp
  show ?thesis
    using transformSelector_priority [of ?s "''submit-button''"]
      transformSelector_priority [of ?t "''textbox''"] a b c d e f g
    by simp
qed

section \<open>Properties of the command mapping table\<close>


lemma map_of_setProp: "map_of (setProp tbl k v) k' = (if k' = k then Some v else map_of tbl k')"
  by (induction tbl) auto

lemma registerOne_keeps:
  "truthyProp (getProp tbl k) \<Longrightarrow> 
   truthyProp (getProp (fst (registerOne (tbl, a) e)) k) \<and> map_of (fst (registerOne (tbl, a) e)) k = map_of tbl k"
proof -
  assume t: "truthyProp (getProp tbl k)"
  obtain c m where e: "e = (c, m)" by (cases e)
  have m: "map_of (fst (registerOne (tbl, a) e)) k = map_of tbl k"
  proof (cases "c = k")
    case True
    with t e show ?thesis by (simp add: registerOne_def)
  next
    case False
    with e show ?thesis by (simp add: registerOne_def map_of_setProp)
  qed
  then have "getProp (fst (registerOne (tbl, a) e)) k = getProp tbl k" by (simp add: getProp_def)
  with t m show ?thesis by simp
qed

lemma registerOne_dom:
  "map_of tbl k \<noteq> None \<Longrightarrow> map_of (fst (registerOne (tbl, a) e)) k \<noteq> None"
  by (cases e) (auto simp: registerOne_def map_of_setProp)

lemma foldl_registerOne_keeps:
  "truthyProp (getProp tbl k) \<Longrightarrow>
   truthyProp (getProp (fst (foldl registerOne (tbl, a) es)) k)
   \<and> map_of (fst (foldl registerOne (tbl, a) es)) k = map_of tbl k"
proof (induction es arbitrary: tbl a)
  case Nil
  then show ?case by simp
next
  case (Cons e es)
  obtain t' a' where r: "registerOne (tbl, a) e = (t', a')" by (cases "registerOne (tbl, a) e")
  with registerOne_keeps [OF Cons.prems, of a e]
  have "truthyProp (getProp t' k)" and "map_of t' k = map_of tbl k" by simp_all
  with Cons.IH [of t' a'] r show ?case by simp
qed

lemma foldl_registerOne_dom:
  "map_of tbl k \<noteq> None \<Longrightarrow> map_of (fst (foldl registerOne (tbl, a) es)) k \<noteq> None"
proof (induction es arbitrary: tbl a)
  case Nil
  then show ?case by simp
next
  case (Cons e es)
  obtain t' a' where r: "registerOne (tbl, a) e = (t', a')" by (cases "registerOne (tbl, a) e")
  with registerOne_dom [OF Cons.prems, of a e] have "map_of t' k \<noteq> None" by simp
  with Cons.IH [of t' a'] r show ?case by simp
qed

lemma handle_table:
  "fst (handleRegisterCustomCommands tbl parsed) =
     (case parsed of
        None \<Rightarrow> tbl
      | Some c \<Rightarrow> (case objectEntries c of Inl e \<Rightarrow> tbl | Inr es \<Rightarrow> fst (foldl registerOne (tbl, []) es)))"
  by (simp add: handleRegisterCustomCommands_def split: option.splits sum.splits prod.splits)

lemma handle_keeps:
  "truthyProp (getProp tbl k) \<Longrightarrow>
   truthyProp (getProp (fst (handleRegisterCustomCommands tbl parsed)) k)
   \<and> map_of (fst (handleRegisterCustomCommands tbl parsed)) k = map_of tbl k"
  using foldl_registerOne_keeps [of tbl k "[]"]
  by (simp add: handle_table split: option.splits sum.splits)

lemma handle_dom:
  "map_of tbl k \<noteq> None \<Longrightarrow> map_of (fst (handleRegisterCustomCommands tbl parsed)) k \<noteq> None"
  using foldl_registerOne_dom [of tbl k "[]"]
  by (simp add: handle_table split: option.splits sum.splits)

lemma handle_seq_keeps:
  "truthyProp (getProp tbl k) \<Longrightarrow>
   map_of (foldl (\<lambda>t p. fst (handleRegisterCustomCommands t p)) tbl ps) k = map_of tbl k"
proof (induction ps arbitrary: tbl)
  case Nil
  then show ?case by simp
next
  case (Cons p ps)
  from handle_keeps [OF Cons.prems, of p] Cons.IH [of "fst (handleRegisterCustomCommands tbl p)"]
  show ?case by simp
qed

lemma static_truthy_all: "list_all (\<lambda>e. truthy (snd e)) COMMAND_MAPPINGS"
  by (simp add: COMMAND_MAPPINGS_def mappingEntry_def mappingEntryWithOptions_def)

lemma static_truthy: "map_of COMMAND_MAPPINGS k = Some v \<Longrightarrow> truthyProp (getProp COMMAND_MAPPINGS k)"
proof -
  assume a: "map_of COMMAND_MAPPINGS k = Some v"
  then have "(k, v) \<in> set COMMAND_MAPPINGS" by (rule map_of_SomeD)
  with static_truthy_all have "truthy v" unfolding list_all_iff by auto
  with a show ?thesis by (simp add: getProp_def)
qed

lemma object_truthy: "map_of tbl k = Some (JObj members) \<Longrightarrow> truthyProp (getProp tbl k)"
  by (simp add: getProp_def)

text \<open>
  C4. A mapping is a JSON object, as the tool documents it and as every entry of the
  static table is. An entry that is an object, static or registered before, is left as
  it is by a registration for its name, and by every sequence of registrations. More
  generally a registration leaves unchanged every key whose lookup in the table is
  truthy, and removes no key; so the entries of the static table keep their mappings
  through any sequence of registrations.
\<close>

theorem register_monotone:
  "(map_of tbl k = Some (JObj members) \<longrightarrow>
      map_of (fst (handleRegisterCustomCommands tbl parsed)) k = Some (JObj members)
      \<and> map_of (foldl (\<lambda>t p. fst (handleRegisterCustomCommands t p)) tbl ps) k
          = Some (JObj members))
   \<and> (truthyProp (getProp tbl k) \<longrightarrow>
      map_of (fst (handleRegisterCustomCommands tbl parsed)) k = map_of tbl k)
   \<and> (map_of tbl k \<noteq> None \<longrightarrow> map_of (fst (handleRegisterCustomCommands tbl parsed)) k \<noteq> None)
   \<and> (map_of COMMAND_MAPPINGS k = Some v \<longrightarrow>
      map_of (foldl (\<lambda>t p. fst (handleRegisterCustomCommands t p)) COMMAND_MAPPINGS ps) k = Some v)"
  using handle_keeps [of tbl k parsed] handle_dom [of tbl k parsed]
    handle_seq_keeps [of tbl k ps] object_truthy [of tbl k members]
    handle_seq_keeps [of COMMAND_MAPPINGS k ps] static_truthy [of k v]
  by auto

text \<open>
  Registering other mappings for \<^verbatim>\<open>setValue\<close> leaves the static mapping to \<^verbatim>\<open>fill\<close>; and
  once \<^verbatim>\<open>login\<close> is registered with the method \<^verbatim>\<open>signIn\<close>, registering it with another
  method leaves \<^verbatim>\<open>signIn\<close>.
\<close>

theorem register_monotone_witness:
  "map_of COMMAND_MAPPINGS ''setValue''
     = Some (JObj [(''method'', JStr ''fill''), (''description'', JStr ''Clears and fills input'')])
   \<and> truthyProp (getProp COMMAND_MAPPINGS ''setValue'')
   \<and> map_of (fst (handleRegisterCustomCommands COMMAND_MAPPINGS
        (Some (JObj [(''setValue'', mappingEntry ''type'' ''custom''),
                     (''login'', mappingEntry ''signIn'' ''custom'')])))) ''setValue''
       = Some (JObj [(''method'', JStr ''fill''), (''description'', JStr ''Clears and fills input'')])
   \<and> map_of (foldl (\<lambda>t p. fst (handleRegisterCustomCommands t p)) COMMAND_MAPPINGS
        [Some (JObj [(''setValue'', JNull)]), None,
         Some (JObj [(''setValue'', mappingEntry ''type'' ''custom'')])]) ''setValue''
       = Some (JObj [(''method'', JStr ''fill''), (''description'', JStr ''Clears and fills input'')])
   \<and> map_of (fst (handleRegisterCustomCommands COMMAND_MAPPINGS
        (Some (JObj [(''login'', mappingEntry ''signIn'' ''custom'')])))) ''login''
       = Some (JObj [(''method'', JStr ''signIn''), (''description'', JStr ''custom'')])
   \<and> map_of (fst (handleRegisterCustomCommands
        (fst (handleRegisterCustomCommands COMMAND_MAPPINGS
           (Some (JObj [(''login'', mappingEntry ''signIn'' ''custom'')]))))
        (Some (JObj [(''login'', mappingEntry ''logIn'' ''other'')])))) ''login''
       = Some (JObj [(''method'', JStr ''signIn''), (''description'', JStr ''custom'')])"
proof -
  let ?fill = "[(''method'', JStr ''fill''), (''description'', JStr ''Clears and fills input'')]"
  let ?signIn = "[(''method'', JStr ''signIn''), (''description'', JStr ''custom'')]"
  let ?first = "Some (JObj [(''setValue'', mappingEntry ''type'' ''custom''),
                     (''login'', mappingEntry ''signIn'' ''custom'')])"
  let ?runs = "[Some (JObj [(''setValue'', JNull)]), None,
          Some (JObj [(''setValue'', mappingEntry ''type'' ''custom'')])]"
  let ?registered = "fst (handleRegisterCustomCommands COMMAND_MAPPINGS
           (Some (JObj [(''login'', mappingEntry ''signIn'' ''custom'')])))"
  let ?again = "Some (JObj [(''login'', mappingEntry ''logIn'' ''other'')])"
  have a: "map_of COMMAND_MAPPINGS ''setValue'' = Some (JObj ?fill)"
    by code_simp
  have b: "truthyProp (getProp COMMAND_MAPPINGS ''setValue'')"
    by code_simp
  have c: "map_of ?registered ''login'' = Some (JObj ?signIn)"
    by code_simp
  note static = register_monotone [of COMMAND_MAPPINGS "''setValue''" ?fill ?first ?runs "JObj ?fill",
      THEN conjunct1, THEN mp, OF a]
  note registered = register_monotone [of ?registered "''login''" ?signIn ?again "[]" "JObj ?signIn",
      THEN conjunct1, THEN mp, OF c, THEN conjunct1]
  show ?thesis
    using a b c static registered by (intro conjI) simp_all
qed

text \<open>
  The handler stores whatever JSON value the text gives for a name, and its guard
  \<^verbatim>\<open>if (!COMMAND_MAPPINGS[wdioCmd])\<close> tests the stored value, not the presence of the key.
  After \<^verbatim>\<open>{"login": false}\<close> was registered the key \<^verbatim>\<open>login\<close> has an entry, and registering
  \<^verbatim>\<open>{"login": {"method": "signIn", ...}}\<close> overwrites it.
\<close>

theorem register_overwrites_counterexample:
  "map_of (fst (handleRegisterCustomCommands COMMAND_MAPPINGS
        (Some (JObj [(''login'', JBool False)])))) ''login'' = Some (JBool False)
   \<and> map_of (fst (handleRegisterCustomCommands
        (fst (handleRegisterCustomCommands COMMAND_MAPPINGS (Some (JObj [(''login'', JBool False)]))))
        (Some (JObj [(''login'', mappingEntry ''signIn'' ''custom'')])))) ''login''
       = Some (mappingEntry ''signIn'' ''custom'')"
  by code_simp
section \<open>Properties of the migration\<close>

text \<open>
  C1. When the parser accepts a text and \<open>detectFramework\<close> reports Playwright only
  for its program, \<open>performAstMigration\<close> returns that text as the code, the single
  note that the file already uses Playwright syntax, no change and no tag, whatever the
  printer, the table, the analysis and the TypeScript flag are. So when the code of a
  first migration is such a text, migrating that code returns it unchanged with the
  same note and an empty change log. The classifier reports nothing when the scope
  crawl of its traversal raises: then the migration raises that failure, for a text
  written in Playwright syntax as for any other.
\<close>

theorem migrate_target_only_unchanged:
  "(parseCode x = Inr body \<and> detectFramework crawl (Program body) = Inr framework
        \<and> isPlaywright framework \<longrightarrow>
      performAstMigration parseCode crawl generate tbl x analysis isTypeScript
        = Inr \<lparr>code = x, notes' = [''File is already using Playwright syntax''],
                 changes = [], tags = []\<rparr>)
   \<and> (performAstMigration parseCode crawl generate tbl x analysis isTypeScript = Inr r
        \<and> parseCode (code r) = Inr body' \<and> detectFramework crawl (Program body') = Inr framework'
        \<and> isPlaywright framework' \<longrightarrow>
      (\<exists>r'. performAstMigration parseCode crawl generate' tbl' (code r) analysis' isTypeScript' = Inr r'
            \<and> code r' = code r
            \<and> notes' r' = [''File is already using Playwright syntax'']
            \<and> changes r' = [] \<and> tags r' = []))
   \<and> (parseCode x = Inr body \<and> crawl (Program body) = Some e \<longrightarrow>
      detectFramework crawl (Program body) = Inl e
      \<and> performAstMigration parseCode crawl generate tbl x analysis isTypeScript = Inl e)"
  by (simp add: performAstMigration_def detectFramework_def)

text \<open>
  The sample Playwright test is returned unchanged, by a first and by a second
  migration; the sample text that declares a constant twice has a Playwright import and
  no WebdriverIO marker, and its migration raises the TypeError of the crawl.
\<close>

theorem migrate_target_only_unchanged_witness:
  "parseSample playwrightText = Inr playwrightAst
   \<and> (\<exists>framework. detectFramework crawlSample (Program playwrightAst) = Inr framework
          \<and> isPlaywright framework)
   \<and> performAstMigration parseSample crawlSample (\<lambda>ast. Inl NotModelled) COMMAND_MAPPINGS
         playwrightText None False
       = Inr \<lparr>code = playwrightText, notes' = [''File is already using Playwright syntax''],
               changes = [], tags = []\<rparr>
   \<and> (\<exists>r'. performAstMigration parseSample crawlSample (\<lambda>ast. Inl NotModelled) COMMAND_MAPPINGS
              playwrightText None True = Inr r'
            \<and> code r' = playwrightText
            \<and> notes' r' = [''File is already using Playwright syntax'']
            \<and> changes r' = [] \<and> tags r' = [])
   \<and> parseSample duplicateText = Inr duplicateAst
   \<and> crawlSample (Program duplicateAst) = Some TypeError
   \<and> list_ex playwrightMarker (allNodes (Program duplicateAst))
   \<and> \<not> list_ex wdioMarker (allNodes (Program duplicateAst))
   \<and> detectFramework crawlSample (Program duplicateAst) = Inl TypeError
   \<and> performAstMigration parseSample crawlSample (\<lambda>ast. Inl NotModelled) COMMAND_MAPPINGS
         duplicateText None False = Inl TypeError"
proof -
  let ?verdict = "\<lparr>isWdio = False, isPlaywright = True, isMixed = False, isUnknown = False\<rparr>"
  let ?r = "\<lparr>code = playwrightText, notes' = [''File is already using Playwright syntax''],
             changes = [], tags = []\<rparr>"
  let ?printer = "(\<lambda>ast. Inl NotModelled) :: node \<Rightarrow> failure + string"
  have a: "parseSample playwrightText = Inr playwrightAst"
    by code_simp
  have b: "detectFramework crawlSample (Program playwrightAst) = Inr ?verdict"
    by code_simp
  have c: "isPlaywright ?verdict"
    by simp
  have d: "parseSample duplicateText = Inr duplicateAst"
    by code_simp
  have e: "crawlSample (Program duplicateAst) = Some TypeError"
    by (simp add: crawlSample_def)
  have f: "list_ex playwrightMarker (allNodes (Program duplicateAst))"
    by code_simp
  have g: "\<not> list_ex wdioMarker (allNodes (Program duplicateAst))"
    by code_simp
  note first = migrate_target_only_unchanged
    [of parseSample playwrightText playwrightAst crawlSample ?verdict ?printer COMMAND_MAPPINGS
        None False,
     THEN conjunct1, THEN mp, OF conjI [OF a conjI [OF b c]]]
  have a': "parseSample (code ?r) = Inr playwrightAst"
    using a by simp
  note second = migrate_target_only_unchanged
    [of parseSample playwrightText _ crawlSample _ ?printer COMMAND_MAPPINGS None False
        ?r playwrightAst ?verdict ?printer COMMAND_MAPPINGS None True,
     THEN conjunct2, THEN conjunct1, THEN mp, OF conjI [OF first conjI [OF a' conjI [OF b c]]]]
  note third = migrate_target_only_unchanged
    [of parseSample duplicateText duplicateAst crawlSample _ ?printer COMMAND_MAPPINGS
        None False _ _ _ _ _ _ _ TypeError,
     THEN conjunct2, THEN conjunct2, THEN mp, OF conjI [OF d e]]
  have second': "\<exists>r'. performAstMigration parseSample crawlSample ?printer COMMAND_MAPPINGS
              playwrightText None True = Inr r'
            \<and> code r' = playwrightText
            \<and> notes' r' = [''File is already using Playwright syntax'']
            \<and> changes r' = [] \<and> tags r' = []"
    using second by simp
  have b': "\<exists>framework. detectFramework crawlSample (Program playwrightAst) = Inr framework
          \<and> isPlaywright framework"
    using b c by blast
  show ?thesis
    using a b' first second' d e f g third by (intro conjI) simp_all
qed

text \<open>
  C5. The rewrite of the one statement \<^verbatim>\<open>it('should login [SMOKE] [P1]', () => {})\<close>:
  the call becomes a call of \<^verbatim>\<open>test\<close> named \<^verbatim>\<open>should login\<close>, whose second argument is
  the object \<^verbatim>\<open>{ tag: ['@smoke', '@p1'] }\<close> and whose callback has received the
  \<^verbatim>\<open>{ page }\<close> parameter; the tags \<^verbatim>\<open>smoke\<close> and \<^verbatim>\<open>p1\<close> are recorded.
\<close>

theorem it_call_tags_migrated:
  "rewriteAst COMMAND_MAPPINGS
     [ExpressionStatement
        (CallExpression (Id ''it'')
           [StringLiteral ''should login [SMOKE] [P1]'',
            ArrowFunctionExpression [] (BlockStatement [])])] False
   = Inr ([playwrightImport,
           ExpressionStatement
             (CallExpression (Id ''test'')
                [StringLiteral ''should login'',
                 ObjectExpression
                   [ObjectProperty (Id ''tag'')
                      (ArrayExpression [StringLiteral ''@smoke'', StringLiteral ''@p1'']) False False],
                 ArrowFunctionExpression [pageParam] (BlockStatement [])])],
          \<lparr>rewriteState.changes =
             [''Migrated tags [smoke, p1] to Playwright tag annotation'',
              ''Transformed it to test with page fixture'',
              ''Added @playwright/test import''],
           migratedTags = [''smoke'', ''p1''], hasPlaywrightImport = False\<rparr>)"
  by code_simp

lemma table_setValue:
  "getProp COMMAND_MAPPINGS ''setValue'' = Own (mappingEntry ''fill'' ''Clears and fills input'')"
  by code_simp

lemma table_waitForDisplayed:
  "getProp COMMAND_MAPPINGS ''waitForDisplayed''
   = Own (mappingEntryWithOptions ''waitFor'' ''{ state: \"visible\" }'' ''Waits for visibility'')"
  by code_simp

lemma table_browser_setValue: "getProp COMMAND_MAPPINGS ''browser.setValue'' = Missing"
  by code_simp

lemma table_browser_waitForDisplayed: "getProp COMMAND_MAPPINGS ''browser.waitForDisplayed'' = Missing"
  by code_simp

lemma visit_setValue:
  "visitCallExpression COMMAND_MAPPINGS
      (CallExpression (MemberExpression obj (Id ''setValue'') computed) args) st
   = Inr (CallExpression (MemberExpression obj (Id ''fill'') computed) args,
          pushChange ''Transformed .setValue() to .fill()'' st, False)"
  by (simp add: visitCallExpression_def describeRule_def itRule_def hookRule_def selectorRule_def
      memberRule_def renameRule_def browserRule_def toStr_def truthyValue_def table_setValue table_browser_setValue
      mappingEntry_def)

lemma visit_waitForDisplayed:
  "visitCallExpression COMMAND_MAPPINGS
      (CallExpression (MemberExpression obj (Id ''waitForDisplayed'') computed) args) st
   = Inr (CallExpression (MemberExpression obj (Id ''waitFor'') computed) args,
          pushChange ''Transformed .waitForDisplayed() to .waitFor()'' st, False)"
  by (simp add: visitCallExpression_def describeRule_def itRule_def hookRule_def selectorRule_def
      memberRule_def renameRule_def browserRule_def toStr_def truthyValue_def table_waitForDisplayed
      table_browser_waitForDisplayed mappingEntryWithOptions_def)

text \<open>
  C6. With the static table, a call of the member \<^verbatim>\<open>setValue\<close> becomes a call of
  \<^verbatim>\<open>fill\<close> on the same object with the same arguments. The entry of
  \<^verbatim>\<open>waitForDisplayed\<close> holds the method \<^verbatim>\<open>waitFor\<close> and the options text
  \<^verbatim>\<open>{ state: "visible" }\<close>, but the visitor reads the method only: the call becomes a
  call of \<^verbatim>\<open>waitFor\<close> with the arguments it had, and the options appear nowhere.
\<close>

theorem member_call_renamed:
  "visitCallExpression COMMAND_MAPPINGS
      (CallExpression (MemberExpression obj (Id ''setValue'') computed) args) st
   = Inr (CallExpression (MemberExpression obj (Id ''fill'') computed) args,
          pushChange ''Transformed .setValue() to .fill()'' st, False)
   \<and> getProp COMMAND_MAPPINGS ''waitForDisplayed''
     = Own (JObj [(''method'', JStr ''waitFor''), (''options'', JStr ''{ state: \"visible\" }''),
                  (''description'', JStr ''Waits for visibility'')])
   \<and> visitCallExpression COMMAND_MAPPINGS
      (CallExpression (MemberExpression obj (Id ''waitForDisplayed'') computed) args) st
   = Inr (CallExpression (MemberExpression obj (Id ''waitFor'') computed) args,
          pushChange ''Transformed .waitForDisplayed() to .waitFor()'' st, False)"
  by (simp only: visit_setValue visit_waitForDisplayed table_waitForDisplayed
      mappingEntryWithOptions_def simp_thms)

text \<open>
  The rewrite of \<^verbatim>\<open>await $('#dashboard').waitForDisplayed()\<close> is
  \<^verbatim>\<open>await page.locator('#dashboard').waitFor()\<close>, a call with no argument.
\<close>

theorem waitForDisplayed_failing_input:
  "rewriteAst COMMAND_MAPPINGS
     [ExpressionStatement (AwaitExpression
        (CallExpression
           (MemberExpression (CallExpression (Id ''$'') [StringLiteral ''#dashboard''])
              (Id ''waitForDisplayed'') False) []))] False
   = Inr ([playwrightImport,
           ExpressionStatement (AwaitExpression
             (CallExpression
                (MemberExpression
                   (CallExpression (MemberExpression (Id ''page'') (Id ''locator'') False)
                      [StringLiteral ''#dashboard''])
                   (Id ''waitFor'') False) []))],
          \<lparr>rewriteState.changes =
             [''Transformed .waitForDisplayed() to .waitFor()'',
              ''Transformed $('' @ [CHR 0x27] @ ''#dashboard'' @ [CHR 0x27] @ '') to page.locator(''
                @ [CHR 0x27] @ ''#dashboard'' @ [CHR 0x27] @ '')'',
              ''Added @playwright/test import''],
           migratedTags = [], hasPlaywrightImport = False\<rparr>)"
  by code_simp

lemmas visit_defs = visitCallExpression_def describeRule_def itRule_def hookRule_def selectorRule_def
      memberRule_def hookMap_def getProp_def toStr_def objectPrototypeKeys_def

lemma hookMap_cases:
  "map_of hookMap h = Some v \<Longrightarrow>
   (h = ''before'' \<and> v = JStr ''beforeAll'') \<or> (h = ''after'' \<and> v = JStr ''afterAll'')
   \<or> (h = ''beforeEach'' \<and> v = JStr ''beforeEach'') \<or> (h = ''afterEach'' \<and> v = JStr ''afterEach'')"
  by (simp add: hookMap_def split: if_splits)

lemma visit_before:
  "visitCallExpression tbl (CallExpression (Id ''before'') args) st =
     Inr (CallExpression (MemberExpression (Id ''test'') (Id ''beforeAll'') False) (injectFirst args),
          pushChange ''Transformed before to test.beforeAll'' st, False)"
  by (simp add: visit_defs)

lemma visit_after:
  "visitCallExpression tbl (CallExpression (Id ''after'') args) st =
     Inr (CallExpression (MemberExpression (Id ''test'') (Id ''afterAll'') False) (injectFirst args),
          pushChange ''Transformed after to test.afterAll'' st, False)"
  by (simp add: visit_defs)

lemma visit_beforeEach:
  "visitCallExpression tbl (CallExpression (Id ''beforeEach'') args) st =
     Inr (CallExpression (MemberExpression (Id ''test'') (Id ''beforeEach'') False) (injectFirst args),
          pushChange ''Transformed beforeEach to test.beforeEach'' st, False)"
  by (simp add: visit_defs)

lemma visit_afterEach:
  "visitCallExpression tbl (CallExpression (Id ''afterEach'') args) st =
     Inr (CallExpression (MemberExpression (Id ''test'') (Id ''afterEach'') False) (injectFirst args),
          pushChange ''Transformed afterEach to test.afterEach'' st, False)"
  by (simp add: visit_defs)

lemma visit_beforeAll:
  "visitCallExpression tbl (CallExpression (Id ''beforeAll'') args) st =
     Inr (CallExpression (Id ''beforeAll'') args, st, False)"
  by (simp add: visit_defs)

lemma visit_afterAll:
  "visitCallExpression tbl (CallExpression (Id ''afterAll'') args) st =
     Inr (CallExpression (Id ''afterAll'') args, st, False)"
  by (simp add: visit_defs)

text \<open>
  C7. The visitor remaps the four hook names of \<open>hookMap\<close>: \<^verbatim>\<open>before\<close> and
  \<^verbatim>\<open>after\<close> become \<^verbatim>\<open>test.beforeAll\<close> and \<^verbatim>\<open>test.afterAll\<close>, \<^verbatim>\<open>beforeEach\<close> and
  \<^verbatim>\<open>afterEach\<close> keep their names under \<^verbatim>\<open>test\<close>, and a first argument that is a
  function with no parameter receives \<^verbatim>\<open>{ page }\<close>. A call of the bare name
  \<^verbatim>\<open>beforeAll\<close> or \<^verbatim>\<open>afterAll\<close> is left as it is.
\<close>

theorem hooks_remapped:
  "(map_of hookMap h = Some (JStr t) \<longrightarrow>
      visitCallExpression tbl (CallExpression (Id h) args) st =
        Inr (CallExpression (MemberExpression (Id ''test'') (Id t) False) (injectFirst args),
             pushChange (''Transformed '' @ h @ '' to test.'' @ t) st, False))
   \<and> hookMap = [(''before'', JStr ''beforeAll''), (''after'', JStr ''afterAll''),
                 (''beforeEach'', JStr ''beforeEach''), (''afterEach'', JStr ''afterEach'')]
   \<and> injectFirst (ArrowFunctionExpression [] body # rest) = ArrowFunctionExpression [pageParam] body # rest
   \<and> injectFirst (FunctionExpression [] body # rest) = FunctionExpression [pageParam] body # rest
   \<and> (h = ''beforeAll'' \<or> h = ''afterAll'' \<longrightarrow>
      visitCallExpression tbl (CallExpression (Id h) args) st = Inr (CallExpression (Id h) args, st, False))"
proof (intro conjI impI)
  assume "map_of hookMap h = Some (JStr t)"
  from hookMap_cases [OF this]
  show "visitCallExpression tbl (CallExpression (Id h) args) st =
        Inr (CallExpression (MemberExpression (Id ''test'') (Id t) False) (injectFirst args),
             pushChange (''Transformed '' @ h @ '' to test.'' @ t) st, False)"
  proof (elim disjE conjE)
    assume "h = ''before''" "JStr t = JStr ''beforeAll''"
    then show ?thesis using visit_before [of tbl args st] by simp
  next
    assume "h = ''after''" "JStr t = JStr ''afterAll''"
    then show ?thesis using visit_after [of tbl args st] by simp
  next
    assume "h = ''beforeEach''" "JStr t = JStr ''beforeEach''"
    then show ?thesis using visit_beforeEach [of tbl args st] by simp
  next
    assume "h = ''afterEach''" "JStr t = JStr ''afterEach''"
    then show ?thesis using visit_afterEach [of tbl args st] by simp
  qed
next
  show "hookMap = [(''before'', JStr ''beforeAll''), (''after'', JStr ''afterAll''),
                 (''beforeEach'', JStr ''beforeEach''), (''afterEach'', JStr ''afterEach'')]"
    by (simp only: hookMap_def)
next
  show "injectFirst (ArrowFunctionExpression [] body # rest) = ArrowFunctionExpression [pageParam] body # rest"
    by (simp add: injectFirst_def)
next
  show "injectFirst (FunctionExpression [] body # rest) = FunctionExpression [pageParam] body # rest"
    by (simp add: injectFirst_def)
next
  assume "h = ''beforeAll'' \<or> h = ''afterAll''"
  then show "visitCallExpression tbl (CallExpression (Id h) args) st = Inr (CallExpression (Id h) args, st, False)"
    using visit_beforeAll [of tbl args st] visit_afterAll [of tbl args st] by (elim disjE) simp_all
qed

theorem hooks_remapped_witness:
  "map_of hookMap ''before'' = Some (JStr ''beforeAll'')
   \<and> visitCallExpression COMMAND_MAPPINGS
        (CallExpression (Id ''before'') [ArrowFunctionExpression [] (BlockStatement [])]) initialState
      = Inr (CallExpression (MemberExpression (Id ''test'') (Id ''beforeAll'') False)
               [ArrowFunctionExpression [pageParam] (BlockStatement [])],
             pushChange ''Transformed before to test.beforeAll'' initialState, False)
   \<and> visitCallExpression COMMAND_MAPPINGS
        (CallExpression (Id ''afterAll'') [ArrowFunctionExpression [] (BlockStatement [])]) initialState
      = Inr (CallExpression (Id ''afterAll'') [ArrowFunctionExpression [] (BlockStatement [])],
             initialState, False)"
proof -
  have a: "map_of hookMap ''before'' = Some (JStr ''beforeAll'')"
    by (simp add: hookMap_def)
  have b: "visitCallExpression COMMAND_MAPPINGS
        (CallExpression (Id ''before'') [ArrowFunctionExpression [] (BlockStatement [])]) initialState
      = Inr (CallExpression (MemberExpression (Id ''test'') (Id ''beforeAll'') False)
               (injectFirst [ArrowFunctionExpression [] (BlockStatement [])]),
             pushChange (''Transformed '' @ ''before'' @ '' to test.'' @ ''beforeAll'') initialState, False)"
    by (rule hooks_remapped [THEN conjunct1, THEN mp, OF a])
  have c: "visitCallExpression COMMAND_MAPPINGS
        (CallExpression (Id ''afterAll'') [ArrowFunctionExpression [] (BlockStatement [])]) initialState
      = Inr (CallExpression (Id ''afterAll'') [ArrowFunctionExpression [] (BlockStatement [])],
             initialState, False)"
    by (rule hooks_remapped [THEN conjunct2, THEN conjunct2, THEN conjunct2, THEN conjunct2, THEN mp])
      simp
  have d: "injectFirst [ArrowFunctionExpression [] (BlockStatement [])]
           = [ArrowFunctionExpression [pageParam] (BlockStatement [])]"
    by (simp add: injectFirst_def)
  show ?thesis
    unfolding a b c d by simp
qed

text \<open>
  \<open>extractAstInfo\<close> records a call of \<^verbatim>\<open>beforeAll\<close> as a hook, and the rewrite leaves
  the call unchanged: the only change is the added import.
\<close>

theorem hooks_six_counterexample:
  "hooksAt (CallExpression (Id ''beforeAll'') [ArrowFunctionExpression [] (BlockStatement [])]) = [''beforeAll'']
   \<and> rewriteAst COMMAND_MAPPINGS
        [ExpressionStatement (CallExpression (Id ''beforeAll'') [ArrowFunctionExpression [] (BlockStatement [])])] False
      = Inr ([playwrightImport,
              ExpressionStatement (CallExpression (Id ''beforeAll'') [ArrowFunctionExpression [] (BlockStatement [])])],
             pushChange ''Added @playwright/test import'' initialState)"
  by code_simp

text \<open>
  C9. The selector \<^verbatim>\<open>input[name='q']\<close> falls to the css case, whose code is the
  text \<^verbatim>\<open>page.locator('input[name='q']')\<close> with the quotes of the selector unescaped.
  \<open>parseExpression\<close> rejects that text, so the rewrite of \<^verbatim>\<open>$('input[name='q']')\<close>
  raises after the parse of the input has succeeded, and so does the migration. The
  program declares no name, so the scope crawl finds nothing to raise.
\<close>

theorem selector_reparse_fails:
  "transformSelector (''input[name='' @ [CHR 0x27] @ ''q'' @ [CHR 0x27] @ '']'')
     = \<lparr>selectorTransform.code = ''page.locator('' @ [CHR 0x27] @ ''input[name='' @ [CHR 0x27] @ ''q''
                                   @ [CHR 0x27] @ '']'' @ [CHR 0x27] @ '')'',
         type = ''css'',
         original = ''input[name='' @ [CHR 0x27] @ ''q'' @ [CHR 0x27] @ '']'',
         note' = None,
         suggestion = Some ''Consider using data-test-id for more reliable selectors''\<rparr>
   \<and> parseExpression (''page.locator('' @ [CHR 0x27] @ ''input[name='' @ [CHR 0x27] @ ''q''
                                   @ [CHR 0x27] @ '']'' @ [CHR 0x27] @ '')'') = SyntaxError
   \<and> rewriteAst COMMAND_MAPPINGS
        [ExpressionStatement
           (CallExpression (Id ''$'') [StringLiteral (''input[name='' @ [CHR 0x27] @ ''q'' @ [CHR 0x27] @ '']'')])]
        False = Inl ReparseFailure
   \<and> performAstMigration (\<lambda>text. Inr [ExpressionStatement
           (CallExpression (Id ''$'') [StringLiteral (''input[name='' @ [CHR 0x27] @ ''q'' @ [CHR 0x27] @ '']'')])])
        (\<lambda>ast. None) generate COMMAND_MAPPINGS testContent analysis False = Inl ReparseFailure"
  by code_simp


section \<open>Properties of the page-object synthesizer\<close>

text \<open>
  C8. For the file name \<^verbatim>\<open>login.spec.js\<close> and a test that opens \<^verbatim>\<open>/login\<close> and
  finds its button with \<^verbatim>\<open>page.locator("[data-test-id='submit-button']")\<close>,
  \<open>refactorToPom\<close> gives the class \<^verbatim>\<open>LoginPage\<close> in \<^verbatim>\<open>LoginPage.js\<close>, whose \<^verbatim>\<open>goto\<close>
  method opens \<^verbatim>\<open>/login\<close> and whose constructor assigns one field, \<^verbatim>\<open>submitButton\<close>.
  The name comes from the selector text alone: a selector that holds
  \<^verbatim>\<open>data-test-id='submit-button'\<close> is named \<^verbatim>\<open>submitButton\<close> whatever the factory and the
  index are, and the selector \<^verbatim>\<open>submit-button\<close>, the argument of \<^verbatim>\<open>getByTestId\<close>, gets
  the positional name.
\<close>

theorem page_object_from_attribute_locator:
  "refactorToPom (\<lambda>text. Inr (loginTest byAttribute)) testContent ''login.spec.js''
   = Inr \<lparr>pageObject =
            \<lparr>className = ''LoginPage'',
             fileName = ''LoginPage.js'',
             content =
               join [CHR 0x0A]
                 [''export class LoginPage {'',
                  ''  constructor(page) {'',
                  ''    this.page = page;'',
                  ''    this.submitButton = page.locator('' @ [CHR 0x27] @ ''[data-test-id=''
                    @ [CHR 0x27] @ ''submit-button'' @ [CHR 0x27] @ '']'' @ [CHR 0x27] @ '');'',
                  ''  }'',
                  '''',
                  ''  async goto() {'',
                  ''    await this.page.goto('' @ [CHR 0x27] @ ''/login'' @ [CHR 0x27] @ '');'',
                  ''  }'',
                  ''}'',
                  '''']\<rparr>,
          pageInfo =
            \<lparr>urls = [''/login''],
             locators =
               [\<lparr>method' = ''locator'',
                 selector = Some (''[data-test-id='' @ [CHR 0x27] @ ''submit-button'' @ [CHR 0x27] @ '']''),
                 options = None\<rparr>],
             actions = [''click''],
             assertions = 0\<rparr>\<rparr>
   \<and> generateLocatorName
        \<lparr>method' = factory,
         selector = Some (''[data-test-id='' @ [CHR 0x27] @ ''submit-button'' @ [CHR 0x27] @ '']''),
         options = opts\<rparr> index = ''submitButton''
   \<and> generateLocatorName \<lparr>method' = factory, selector = Some ''submit-button'', options = opts\<rparr> index
     = ''element'' @ showNat (index + 1)"
  by code_simp

text \<open>
  The same test with the button found by \<^verbatim>\<open>page.getByTestId('submit-button')\<close>: the one
  field of the class is \<^verbatim>\<open>element1\<close>.
\<close>

theorem page_object_getByTestId_counterexample:
  "refactorToPom (\<lambda>text. Inr (loginTest byTestId)) '''' ''login.spec.js''
   = Inr \<lparr>pageObject =
            \<lparr>className = ''LoginPage'',
             fileName = ''LoginPage.js'',
             content =
               join [CHR 0x0A]
                 [''export class LoginPage {'',
                  ''  constructor(page) {'',
                  ''    this.page = page;'',
                  ''    this.element1 = page.getByTestId('' @ [CHR 0x27] @ ''submit-button''
                    @ [CHR 0x27] @ '');'',
                  ''  }'',
                  '''',
                  ''  async goto() {'',
                  ''    await this.page.goto('' @ [CHR 0x27] @ ''/login'' @ [CHR 0x27] @ '');'',
                  ''  }'',
                  ''}'',
                  '''']\<rparr>,
          pageInfo =
            \<lparr>urls = [''/login''],
             locators = [\<lparr>method' = ''getByTestId'', selector = Some ''submit-button'', options = None\<rparr>],
             actions = [''click''],
             assertions = 0\<rparr>\<rparr>"
  by code_simp

end
